theory Spec2Isabelle
  imports Main "HOL-Library.Sublist"
begin

section \<open>Strings\<close>

text \<open>
  A Python \<open>str\<close> is modelled as a \<open>string\<close>: a list of 8-bit characters, read as the
  code points U+0000 to U+00FF. Every character table below (white space, lower case,
  printable) is Python's table restricted to that range. Python's limit on the number
  of digits \<open>int()\<close> converts (4300 by default) is not modelled.
\<close>

text \<open>\<open>str.isspace\<close> of a single character; the same set is \<open>\s\<close> of the module \<open>re\<close>.\<close>

definition py_isspace :: "char \<Rightarrow> bool" where
  "py_isspace c =
     (let n = (of_char c :: nat)
      in (9 \<le> n \<and> n \<le> 13) \<or> (28 \<le> n \<and> n \<le> 32) \<or> n = 133 \<or> n = 160)"

text \<open>\<open>s.strip()\<close>: white space is dropped at both ends.\<close>

definition py_strip :: "string \<Rightarrow> string" where
  "py_strip s = rev (dropWhile py_isspace (rev (dropWhile py_isspace s)))"

text \<open>\<open>s.lower()\<close>: the letters A to Z and the capital letters of U+00C0 to U+00DE.\<close>

definition py_lower_char :: "char \<Rightarrow> char" where
  "py_lower_char c =
     (let n = (of_char c :: nat)
      in if (65 \<le> n \<and> n \<le> 90) \<or> (192 \<le> n \<and> n \<le> 222 \<and> n \<noteq> 215)
         then char_of (n + 32) else c)"

definition py_lower :: "string \<Rightarrow> string" where
  "py_lower s = map py_lower_char s"

text \<open>
  \<open>s.split(sep)\<close> for a separator of one character. The result is never empty, so the
  last branch of the \<open>case\<close> is never taken.
\<close>

fun py_split :: "char \<Rightarrow> string \<Rightarrow> string list" where
  "py_split sep [] = [[]]"
| "py_split sep (c # cs) =
     (if c = sep then [] # py_split sep cs
      else (case py_split sep cs of
              w # ws \<Rightarrow> (c # w) # ws
            | [] \<Rightarrow> [[c]]))"

text \<open>\<open>sep.join(xs)\<close>.\<close>

fun py_join :: "string \<Rightarrow> string list \<Rightarrow> string" where
  "py_join sep [] = []"
| "py_join sep [x] = x"
| "py_join sep (x # y # ys) = x @ sep @ py_join sep (y # ys)"

text \<open>\<open>sub in s\<close> on strings: \<open>sub\<close> occurs in \<open>s\<close> as a contiguous run.\<close>

fun py_in :: "string \<Rightarrow> string \<Rightarrow> bool" where
  "py_in sub [] = (sub = [])"
| "py_in sub (c # cs) = (prefix sub (c # cs) \<or> py_in sub cs)"

text \<open>
  \<open>s.replace(old, new)\<close>: the occurrences of \<open>old\<close> are found from the left and do not
  overlap; an empty \<open>old\<close> puts \<open>new\<close> before every character and at the end.
\<close>

function py_replace :: "string \<Rightarrow> string \<Rightarrow> string \<Rightarrow> string" where
  "py_replace old new s =
     (if old = [] then new @ concat (map (\<lambda>c. c # new) s)
      else if s = [] then []
      else if prefix old s then new @ py_replace old new (drop (length old) s)
      else hd s # py_replace old new (tl s))"
  by pat_completeness auto
termination
  by (relation "measure (\<lambda>(old, new, s). length s)") auto

declare py_replace.simps [simp del]

text \<open>
  \<open>int(s)\<close> on a string, as \<open>None\<close> where Python raises \<open>ValueError\<close>. White space
  around the numeral is skipped (for \<open>int\<close> the characters U+001C to U+001F do not
  count as white space), then comes an optional sign, then decimal digits, where single
  underscores may stand between two digits.
\<close>

definition int_isspace :: "char \<Rightarrow> bool" where
  "int_isspace c =
     (let n = (of_char c :: nat)
      in (9 \<le> n \<and> n \<le> 13) \<or> n = 32 \<or> n = 133 \<or> n = 160)"

definition is_digit :: "char \<Rightarrow> bool" where
  "is_digit c = (let n = (of_char c :: nat) in 48 \<le> n \<and> n \<le> 57)"

definition digit_value :: "char \<Rightarrow> nat" where
  "digit_value c = of_char c - 48"

fun int_body :: "string \<Rightarrow> bool" where
  "int_body [] = False"
| "int_body [c] = is_digit c"
| "int_body (c # d # cs) =
     (is_digit c \<and> (if d = CHR ''_'' then int_body cs else int_body (d # cs)))"

definition digits_value :: "string \<Rightarrow> nat" where
  "digits_value s =
     foldl (\<lambda>acc c. 10 * acc + digit_value c) 0 (filter (\<lambda>c. c \<noteq> CHR ''_'') s)"

definition py_int :: "string \<Rightarrow> int option" where
  "py_int s =
     (let t = rev (dropWhile int_isspace (rev (dropWhile int_isspace s)));
          (neg, body) = (case t of
                           c # r \<Rightarrow> if c = CHR ''-'' then (True, r)
                                    else if c = CHR ''+'' then (False, r)
                                    else (False, t)
                         | [] \<Rightarrow> (False, t))
      in if int_body body
         then Some (if neg then - int (digits_value body) else int (digits_value body))
         else None)"

text \<open>\<open>str(i)\<close> of an integer: its decimal numeral.\<close>

definition digit_char :: "nat \<Rightarrow> char" where
  "digit_char n = char_of (48 + n)"

fun string_of_nat :: "nat \<Rightarrow> string" where
  "string_of_nat n =
     (if n < 10 then [digit_char n] else string_of_nat (n div 10) @ [digit_char (n mod 10)])"

declare string_of_nat.simps [simp del]

definition string_of_int :: "int \<Rightarrow> string" where
  "string_of_int i =
     (if i < 0 then CHR ''-'' # string_of_nat (nat (- i)) else string_of_nat (nat i))"

section \<open>JSON values\<close>

text \<open>
  What \<open>json.loads\<close> returns: \<open>None\<close>, a \<open>bool\<close>, an \<open>int\<close>, a \<open>float\<close>, a \<open>str\<close>, a
  \<open>list\<close> or a \<open>dict\<close> with string keys. A dict is an association list in insertion
  order, its keys distinct. Floating point arithmetic is not modelled: a float is
  carried by the text \<open>repr\<close> prints for it (\<open>0.2\<close>, \<open>1e+100\<close>, \<open>nan\<close>, \<open>inf\<close>), which is all
  the program ever reads of a float.
\<close>

datatype json =
    JNull
  | JBool bool
  | JInt int
  | JFloat string
  | JString string
  | JArray "json list"
  | JObject "(string \<times> json) list"

text \<open>\<open>repr(s)\<close> of a string: the quote is chosen by the quotes in \<open>s\<close>; the backslash,
  the chosen quote, tab, newline, carriage return and every character that is not
  printable are escaped.\<close>

definition hex_digit :: "nat \<Rightarrow> char" where
  "hex_digit n = (if n < 10 then char_of (48 + n) else char_of (87 + n))"

definition py_isprintable :: "char \<Rightarrow> bool" where
  "py_isprintable c =
     (let n = (of_char c :: nat)
      in (32 \<le> n \<and> n \<le> 126) \<or> (161 \<le> n \<and> n \<noteq> 173))"

definition repr_char :: "char \<Rightarrow> char \<Rightarrow> string" where
  "repr_char quote c =
     (if c = quote \<or> c = CHR 0x5C then [CHR 0x5C, c]
      else if c = CHR 0x09 then [CHR 0x5C, CHR ''t'']
      else if c = CHR 0x0A then [CHR 0x5C, CHR ''n'']
      else if c = CHR 0x0D then [CHR 0x5C, CHR ''r'']
      else if py_isprintable c then [c]
      else [CHR 0x5C, CHR ''x'', hex_digit (of_char c div 16), hex_digit (of_char c mod 16)])"

definition repr_str :: "string \<Rightarrow> string" where
  "repr_str s =
     (let quote = (if CHR 0x27 \<in> set s \<and> CHR 0x22 \<notin> set s then CHR 0x22 else CHR 0x27)
      in quote # concat (map (repr_char quote) s) @ [quote])"

text \<open>\<open>repr(v)\<close> and \<open>str(v)\<close> of a decoded value; they differ on strings only.\<close>

fun py_repr :: "json \<Rightarrow> string" where
  "py_repr JNull = ''None''"
| "py_repr (JBool b) = (if b then ''True'' else ''False'')"
| "py_repr (JInt i) = string_of_int i"
| "py_repr (JFloat r) = r"
| "py_repr (JString s) = repr_str s"
| "py_repr (JArray xs) = ''['' @ py_join '', '' (map py_repr xs) @ '']''"
| "py_repr (JObject kvs) =
     ''{'' @ py_join '', '' (map (\<lambda>(k, v). repr_str k @ '': '' @ py_repr v) kvs) @ ''}''"

definition py_str :: "json \<Rightarrow> string" where
  "py_str v = (case v of JString s \<Rightarrow> s | _ \<Rightarrow> py_repr v)"

text \<open>The truth value of \<open>v\<close> in \<open>if v:\<close>.\<close>

definition truthy :: "json \<Rightarrow> bool" where
  "truthy v =
     (case v of
        JNull \<Rightarrow> False
      | JBool b \<Rightarrow> b
      | JInt i \<Rightarrow> i \<noteq> 0
      | JFloat r \<Rightarrow> r \<noteq> ''0.0'' \<and> r \<noteq> ''-0.0''
      | JString s \<Rightarrow> s \<noteq> []
      | JArray xs \<Rightarrow> xs \<noteq> []
      | JObject kvs \<Rightarrow> kvs \<noteq> [])"

text \<open>
  \<open>json.dumps(v, ensure_ascii=False)\<close>: the separators are the defaults, a comma and a
  space between items and a colon and a space after a key; in a string the backslash,
  the double quote and the characters below U+0020 are escaped.
\<close>

definition json_escape_char :: "char \<Rightarrow> string" where
  "json_escape_char c =
     (if c = CHR 0x5C then [CHR 0x5C, CHR 0x5C]
      else if c = CHR 0x22 then [CHR 0x5C, CHR 0x22]
      else if c = CHR 0x08 then [CHR 0x5C, CHR ''b'']
      else if c = CHR 0x0C then [CHR 0x5C, CHR ''f'']
      else if c = CHR 0x0A then [CHR 0x5C, CHR ''n'']
      else if c = CHR 0x0D then [CHR 0x5C, CHR ''r'']
      else if c = CHR 0x09 then [CHR 0x5C, CHR ''t'']
      else if (of_char c :: nat) < 32
        then [CHR 0x5C, CHR ''u'', CHR ''0'', CHR ''0'',
              hex_digit (of_char c div 16), hex_digit (of_char c mod 16)]
      else [c])"

definition json_string :: "string \<Rightarrow> string" where
  "json_string s = CHR 0x22 # concat (map json_escape_char s) @ [CHR 0x22]"

definition json_float :: "string \<Rightarrow> string" where
  "json_float r =
     (if r = ''nan'' then ''NaN''
      else if r = ''inf'' then ''Infinity''
      else if r = ''-inf'' then ''-Infinity''
      else r)"

fun json_dumps :: "json \<Rightarrow> string" where
  "json_dumps JNull = ''null''"
| "json_dumps (JBool b) = (if b then ''true'' else ''false'')"
| "json_dumps (JInt i) = string_of_int i"
| "json_dumps (JFloat r) = json_float r"
| "json_dumps (JString s) = json_string s"
| "json_dumps (JArray xs) = ''['' @ py_join '', '' (map json_dumps xs) @ '']''"
| "json_dumps (JObject kvs) =
     ''{'' @ py_join '', '' (map (\<lambda>(k, v). json_string k @ '': '' @ json_dumps v) kvs) @ ''}''"

text \<open>\<open>d.get(k, dflt)\<close> and \<open>d.pop(key)\<close> for a key that is present.\<close>

definition dict_get :: "(string \<times> json) list \<Rightarrow> string \<Rightarrow> json \<Rightarrow> json" where
  "dict_get d k dflt = (case map_of d k of Some v \<Rightarrow> v | None \<Rightarrow> dflt)"

definition dict_pop :: "(string \<times> json) list \<Rightarrow> string \<Rightarrow> (string \<times> json) list" where
  "dict_pop d key = filter (\<lambda>(k, v). k \<noteq> key) d"

section \<open>Errors and the environment: \<open>getenv\<close>\<close>

text \<open>
  Every exception the program raises is a value. \<open>path_error\<close> holds the exceptions of
  \<open>extract_by_path\<close>; \<open>error\<close> holds those of \<open>call_cloud_api\<close>, which are
  \<open>RuntimeError\<close>s but for \<open>InvalidTimeout\<close>, the \<open>ValueError\<close> of \<open>int()\<close> on
  \<open>REPORT_API_TIMEOUT\<close>. \<open>RequestFailed\<close> stands for the failures of the exchange with
  the remote API (extra headers that are not JSON, an HTTP error, a transport error, a
  body that is not JSON).

  The process environment is a map from names to values. \<open>getenv_lookup\<close> is the value
  \<open>getenv\<close> holds after its first \<open>if\<close>: a variable that is unset, empty or blank gives
  way to the default. \<open>getenv\<close> is the call without \<open>required\<close>, which returns
  \<open>value or ""\<close> and cannot raise; \<open>getenv_required\<close> is the call with \<open>required=True\<close>.
\<close>

datatype path_error =
    ValueError string
  | IndexError
  | KeyError string
  | CannotNavigate string

datatype error =
    MissingEnv string
  | InvalidTimeout string
  | InvalidTemplate string
  | RequestFailed string
  | ExtractionError "string list" path_error
  | NoResponsePaths
  | EmptyContent

definition getenv_lookup :: "(string \<rightharpoonup> string) \<Rightarrow> string \<Rightarrow> string option \<Rightarrow> string option" where
  "getenv_lookup env name dflt =
     (case env name of
        None \<Rightarrow> dflt
      | Some v \<Rightarrow> if v = [] \<or> py_strip v = [] then dflt else Some v)"

definition getenv :: "(string \<rightharpoonup> string) \<Rightarrow> string \<Rightarrow> string option \<Rightarrow> string" where
  "getenv env name dflt =
     (case getenv_lookup env name dflt of None \<Rightarrow> [] | Some v \<Rightarrow> v)"

definition getenv_required :: "(string \<rightharpoonup> string) \<Rightarrow> string \<Rightarrow> string option \<Rightarrow> error + string" where
  "getenv_required env name dflt =
     (case getenv_lookup env name dflt of
        None \<Rightarrow> Inl (MissingEnv name)
      | Some v \<Rightarrow> if py_strip v = [] then Inl (MissingEnv name) else Inr v)"

section \<open>Dotted paths: \<open>extract_by_path\<close>\<close>

text \<open>
  \<open>xs[idx]\<close> on a list: a negative index counts from the end, and an index outside
  \<open>-len(xs) .. len(xs) - 1\<close> raises \<open>IndexError\<close> (here \<open>None\<close>).
\<close>

definition list_getitem :: "'a list \<Rightarrow> int \<Rightarrow> 'a option" where
  "list_getitem xs idx =
     (let n = int (length xs); j = (if idx < 0 then idx + n else idx)
      in if 0 \<le> j \<and> j < n then Some (xs ! nat j) else None)"

text \<open>
  \<open>walk\<close> is the \<open>for\<close> loop of \<open>extract_by_path\<close> over the parts of the path, \<open>cur\<close>
  being the value reached so far. The exceptions are \<open>ValueError\<close> of \<open>int(part)\<close>,
  \<open>IndexError\<close> of \<open>cur[idx]\<close>, \<open>KeyError\<close> of \<open>cur[part]\<close>, and the \<open>KeyError\<close> the
  function raises itself on a value that is neither a list nor a dict
  (\<open>CannotNavigate\<close>).
\<close>

fun walk :: "json \<Rightarrow> string list \<Rightarrow> path_error + json" where
  "walk cur [] = Inr cur"
| "walk cur (part # parts) =
     (case cur of
        JArray xs \<Rightarrow>
          (case py_int part of
             None \<Rightarrow> Inl (ValueError part)
           | Some idx \<Rightarrow>
               (case list_getitem xs idx of
                  None \<Rightarrow> Inl IndexError
                | Some v \<Rightarrow> walk v parts))
      | JObject d \<Rightarrow>
          (case map_of d part of
             None \<Rightarrow> Inl (KeyError part)
           | Some v \<Rightarrow> walk v parts)
      | _ \<Rightarrow> Inl (CannotNavigate part))"

definition extract_by_path :: "json \<Rightarrow> string \<Rightarrow> path_error + json" where
  "extract_by_path data path =
     (if path = [] then Inr data else walk data (py_split CHR ''.'' path))"

section \<open>Request templates: \<open>replace_placeholders\<close> and \<open>build_default_payload\<close>\<close>

text \<open>
  The bindings are a dict from strings to strings, in insertion order. On a string the
  loop over \<open>mapping.items()\<close> is a \<open>fold\<close>: each binding rewrites the output of the
  one before it.
\<close>

fun replace_placeholders :: "json \<Rightarrow> (string \<times> string) list \<Rightarrow> json" where
  "replace_placeholders (JString s) mapping =
     JString (fold (\<lambda>(k, v) out. py_replace (''{{'' @ k @ ''}}'') v out) mapping s)"
| "replace_placeholders (JArray xs) mapping =
     JArray (map (\<lambda>x. replace_placeholders x mapping) xs)"
| "replace_placeholders (JObject d) mapping =
     JObject (map (\<lambda>(k, v). (k, replace_placeholders v mapping)) d)"
| "replace_placeholders obj mapping = obj"

text \<open>
  The dict is built with a \<open>model\<close> entry that is \<open>None\<close> for an empty model name, and
  that entry is then popped.
\<close>

definition build_default_payload :: "string \<Rightarrow> string \<Rightarrow> string \<Rightarrow> json" where
  "build_default_payload model system_prompt user_prompt =
     (let payload =
            [(''model'', if model \<noteq> [] then JString model else JNull),
             (''messages'',
                JArray
                  [JObject [(''role'', JString ''system''), (''content'', JString system_prompt)],
                   JObject [(''role'', JString ''user''), (''content'', JString user_prompt)]]),
             (''temperature'', JFloat ''0.2''),
             (''top_p'', JFloat ''0.9''),
             (''stream'', JBool False)]
      in JObject (if map_of payload ''model'' = Some JNull then dict_pop payload ''model''
                  else payload))"

text \<open>
  The payload of \<open>call_cloud_api\<close>. The JSON parser is a parameter: \<open>loads t\<close> is the
  value \<open>json.loads(t)\<close> returns, \<open>None\<close> where it raises \<open>JSONDecodeError\<close>.
\<close>

definition build_payload ::
  "(string \<Rightarrow> json option) \<Rightarrow> (string \<rightharpoonup> string) \<Rightarrow> string \<Rightarrow> string \<Rightarrow> error + json" where
  "build_payload loads env user_prompt system_prompt =
     (let api_model = getenv env ''REPORT_API_MODEL'' (Some []);
          request_template_json = getenv env ''REPORT_API_REQUEST_TEMPLATE_JSON'' (Some []);
          mapping = [(''model'', api_model),
                     (''system_prompt'', system_prompt),
                     (''user_prompt'', user_prompt)]
      in if py_strip request_template_json \<noteq> []
         then (case loads request_template_json of
                 None \<Rightarrow> Inl (InvalidTemplate request_template_json)
               | Some template \<Rightarrow> Inr (replace_placeholders template mapping))
         else Inr (build_default_payload api_model system_prompt user_prompt))"

section \<open>Extraction over candidate paths: \<open>_extract_first_available\<close>\<close>

definition fallback_paths :: "string list" where
  "fallback_paths =
     [''choices.0.message.final'',
      ''choices.0.message.answer'',
      ''choices.0.message.content'',
      ''choices.0.text'',
      ''response.output_text'',
      ''output_text'',
      ''data.text'',
      ''text'']"

text \<open>The comprehension over the pieces of \<open>paths_csv\<close>, and the loop that appends each
  fallback path not yet in \<open>paths\<close>.\<close>

definition configured_paths :: "string \<Rightarrow> string list" where
  "configured_paths paths_csv =
     map py_strip (filter (\<lambda>p. py_strip p \<noteq> []) (py_split CHR '','' paths_csv))"

fun add_fallbacks :: "string list \<Rightarrow> string list \<Rightarrow> string list" where
  "add_fallbacks paths [] = paths"
| "add_fallbacks paths (p # ps) =
     add_fallbacks (if p \<in> set paths then paths else paths @ [p]) ps"

definition candidate_paths :: "string \<Rightarrow> string list" where
  "candidate_paths paths_csv = add_fallbacks (configured_paths paths_csv) fallback_paths"

text \<open>
  The loop over the candidate paths, \<open>last_err\<close> being the exception of the last path
  tried. An exception object is true in \<open>if last_err:\<close>, so that test asks whether a
  path was tried at all.
\<close>

fun try_paths :: "json \<Rightarrow> string list \<Rightarrow> path_error option \<Rightarrow> path_error option + json" where
  "try_paths data [] last_err = Inl last_err"
| "try_paths data (p # ps) last_err =
     (case extract_by_path data p of
        Inr v \<Rightarrow> Inr v
      | Inl e \<Rightarrow> try_paths data ps (Some e))"

definition extract_first_available :: "json \<Rightarrow> string \<Rightarrow> error + json" where
  "extract_first_available data paths_csv =
     (let paths = candidate_paths paths_csv
      in case try_paths data paths None of
           Inr v \<Rightarrow> Inr v
         | Inl (Some e) \<Rightarrow> Inl (ExtractionError paths e)
         | Inl None \<Rightarrow> Inl NoResponsePaths)"

section \<open>Normalisation: \<open>_normalize_to_text\<close>\<close>

text \<open>The loop over the items of a list, which collects \<open>chunks\<close>.\<close>

fun block_chunks :: "bool \<Rightarrow> json list \<Rightarrow> string list" where
  "block_chunks strip_think [] = []"
| "block_chunks strip_think (item # items) =
     (case item of
        JObject d \<Rightarrow>
          (let item_type = py_lower (py_str (dict_get d ''type'' (JString [])))
           in if strip_think \<and> item_type \<in> {''reasoning'', ''thought'', ''thinking''}
              then block_chunks strip_think items
              else if item_type = ''text''
              then (let t = dict_get d ''text'' (JString [])
                    in if truthy t then py_str t # block_chunks strip_think items
                       else block_chunks strip_think items)
              else (case map_of d ''text'' of
                      Some t \<Rightarrow> py_str t # block_chunks strip_think items
                    | None \<Rightarrow>
                        (case map_of d ''content'' of
                           Some c \<Rightarrow> py_str c # block_chunks strip_think items
                         | None \<Rightarrow> block_chunks strip_think items)))
      | _ \<Rightarrow> py_str item # block_chunks strip_think items)"

text \<open>
  \<open>usable_field d k\<close> is the test \<open>k in value and value[k] not in (None, "")\<close> together
  with the value found; \<open>first_field\<close> is the loop over the tuple of keys, which returns
  at the first key that passes.
\<close>

definition usable_field :: "(string \<times> json) list \<Rightarrow> string \<Rightarrow> json option" where
  "usable_field d k =
     (case map_of d k of
        Some v \<Rightarrow> if v \<noteq> JNull \<and> v \<noteq> JString [] then Some v else None
      | None \<Rightarrow> None)"

fun first_field :: "(string \<times> json) list \<Rightarrow> string list \<Rightarrow> json option" where
  "first_field d [] = None"
| "first_field d (k # ks) =
     (case usable_field d k of
        Some v \<Rightarrow> Some v
      | None \<Rightarrow> first_field d ks)"

lemma map_of_size:
  "map_of d k = Some v \<Longrightarrow> size v < Suc (size_list (size_prod (\<lambda>x. 0) size) d)"
  by (induction d) (auto split: if_splits)

lemma usable_field_size:
  "usable_field d k = Some v \<Longrightarrow> size v < Suc (size_list (size_prod (\<lambda>x. 0) size) d)"
  by (auto simp: usable_field_def split: option.splits if_splits dest: map_of_size)

lemma first_field_size:
  "first_field d ks = Some v \<Longrightarrow> size v < Suc (size_list (size_prod (\<lambda>x. 0) size) d)"
  by (induction ks) (auto split: option.splits dest: usable_field_size)

function normalize_to_text :: "bool \<Rightarrow> json \<Rightarrow> string" where
  "normalize_to_text strip_think (JArray items) =
     py_strip (py_join ''\<newline>'' (filter (\<lambda>c. c \<noteq> []) (block_chunks strip_think items)))"
| "normalize_to_text strip_think (JObject d) =
     (case first_field d [''final'', ''answer'', ''output_text'', ''text'', ''content''] of
        Some v \<Rightarrow> normalize_to_text strip_think v
      | None \<Rightarrow>
          (case usable_field d ''message'' of
             Some m \<Rightarrow> normalize_to_text strip_think m
           | None \<Rightarrow> json_dumps (JObject d)))"
| "normalize_to_text strip_think JNull = py_strip (py_str JNull)"
| "normalize_to_text strip_think (JBool b) = py_strip (py_str (JBool b))"
| "normalize_to_text strip_think (JInt i) = py_strip (py_str (JInt i))"
| "normalize_to_text strip_think (JFloat r) = py_strip (py_str (JFloat r))"
| "normalize_to_text strip_think (JString s) = py_strip (py_str (JString s))"
  by pat_completeness auto
termination
  by (relation "measure (\<lambda>(st, v). size v)")
     (auto simp del: first_field.simps dest!: first_field_size usable_field_size)

section \<open>Think blocks: \<open>_strip_think_blocks\<close>\<close>

text \<open>
  The regular expressions of the source are written out as scanners. \<open>re.sub\<close> goes
  through the text from the left; where the pattern matches, the match is replaced (here
  by nothing) and the search goes on behind it; elsewhere one character is copied.

  With \<open>re.IGNORECASE\<close> a literal of the pattern matches the text at a place when,
  character by character, both are equal in lower case.
\<close>

fun ci_prefix :: "string \<Rightarrow> string \<Rightarrow> bool" where
  "ci_prefix [] s = True"
| "ci_prefix (a # lit) [] = False"
| "ci_prefix (a # lit) (c # cs) =
     (if py_lower_char a = py_lower_char c then ci_prefix lit cs else False)"

text \<open>
  The tail \<open>[\s\S]*?close\<close> of a pattern: the lazy star stops at the first place where
  \<open>close\<close> follows. The result is the text behind the match, \<open>None\<close> when \<open>close\<close> does not
  occur.
\<close>

fun find_after :: "string \<Rightarrow> string \<Rightarrow> string option" where
  "find_after close [] = (if close = [] then Some [] else None)"
| "find_after close (c # cs) =
     (if ci_prefix close (c # cs) then Some (drop (length close) (c # cs))
      else find_after close cs)"

text \<open>Alternatives are tried in their order; the first that leads to a match wins.\<close>

fun first_some :: "('a \<Rightarrow> 'b option) \<Rightarrow> 'a list \<Rightarrow> 'b option" where
  "first_some f [] = None"
| "first_some f (x # xs) = (case f x of Some y \<Rightarrow> Some y | None \<Rightarrow> first_some f xs)"

text \<open>
  A match of \<open>(open\<^sub>1|open\<^sub>2|...)[\s\S]*?close\<close> at the start of \<open>s\<close>, as the text behind
  it. \<open>sub_span\<close> is \<open>re.sub\<close> of that pattern by the empty string; a match that consumes
  nothing removes nothing, and the scan moves on by one character.
\<close>

definition match_span :: "string list \<Rightarrow> string \<Rightarrow> string \<Rightarrow> string option" where
  "match_span opens close s =
     first_some
       (\<lambda>opn. if ci_prefix opn s then find_after close (drop (length opn) s) else None)
       opens"

function sub_span :: "string list \<Rightarrow> string \<Rightarrow> string \<Rightarrow> string" where
  "sub_span opens close [] = []"
| "sub_span opens close (c # cs) =
     (case match_span opens close (c # cs) of
        Some rest \<Rightarrow>
          if length rest < length (c # cs) then sub_span opens close rest
          else c # sub_span opens close cs
      | None \<Rightarrow> c # sub_span opens close cs)"
  by pat_completeness auto
termination
  by (relation "measure (\<lambda>(opens, close, s). length s)") auto

text \<open>
  The list \<open>patterns\<close> of the source, each pattern as its opening alternatives and its
  closing literal: \<open><think>[\s\S]*?</think>\<close>, \<open><reasoning>[\s\S]*?</reasoning>\<close> and
  the fence, three backquotes and \<open>(?:think|thinking|reasoning)\<close>, then \<open>[\s\S]*?\<close> and
  three backquotes.
\<close>

definition patterns :: "(string list \<times> string) list" where
  "patterns =
     [([''<think>''], ''</think>''),
      ([''<reasoning>''], ''</reasoning>''),
      ([''```think'', ''```thinking'', ''```reasoning''], ''```'')]"

text \<open>
  The pattern \<open>(?im)^\s*(reasoning|thought|thinking)\s*:\s*.*$\<close> at a place where \<open>^\<close>
  holds. Each \<open>\s*\<close> is greedy and takes all the white space there is, newlines
  included; giving some of it back never helps, since what follows it in the pattern
  is not white space. \<open>.*\<close> runs to the end of the line, where \<open>$\<close> holds. The result is
  the text behind the match.
\<close>

definition match_reasoning_line :: "string \<Rightarrow> string option" where
  "match_reasoning_line s =
     (let s1 = dropWhile py_isspace s
      in first_some
           (\<lambda>kw. if ci_prefix kw s1
                  then (case dropWhile py_isspace (drop (length kw) s1) of
                          c # s3 \<Rightarrow>
                            if c = CHR '':''
                            then Some (dropWhile (\<lambda>x. x \<noteq> CHR 0x0A) (dropWhile py_isspace s3))
                            else None
                        | [] \<Rightarrow> None)
                  else None)
           [''reasoning'', ''thought'', ''thinking''])"

text \<open>
  \<open>^\<close> holds at the start of the text and behind a newline: behind a match, the
  character before the place is the last character the match consumed.
\<close>

definition after_newline :: "bool \<Rightarrow> string \<Rightarrow> bool" where
  "after_newline bol consumed =
     (case rev consumed of [] \<Rightarrow> bol | x # xs \<Rightarrow> x = CHR 0x0A)"

lemma first_some_SomeD: "first_some f xs = Some y \<Longrightarrow> \<exists>x \<in> set xs. f x = Some y"
  by (induction xs) (auto split: option.splits)

lemma match_reasoning_line_shorter:
  assumes "match_reasoning_line s = Some rest"
  shows "length rest < length s"
proof -
  define s1 where "s1 = dropWhile py_isspace s"
  from assms obtain kw c s3 where kw: "ci_prefix kw s1"
    and t: "dropWhile py_isspace (drop (length kw) s1) = c # s3"
    and r: "rest = dropWhile (\<lambda>x. x \<noteq> CHR 0x0A) (dropWhile py_isspace s3)"
    unfolding match_reasoning_line_def Let_def s1_def [symmetric]
    by (auto dest!: first_some_SomeD split: if_splits list.splits)
  have "length rest \<le> length s3"
    unfolding r by (meson length_dropWhile_le order_trans)
  also have "length s3 < length (dropWhile py_isspace (drop (length kw) s1))"
    by (simp add: t)
  also have "\<dots> \<le> length (drop (length kw) s1)"
    by (rule length_dropWhile_le)
  also have "\<dots> \<le> length s1" by simp
  also have "\<dots> \<le> length s" unfolding s1_def by (rule length_dropWhile_le)
  finally show ?thesis .
qed

text \<open>\<open>re.sub\<close> of the line pattern; \<open>bol\<close> says whether \<open>^\<close> holds at the head of the text.\<close>

function sub_reasoning_lines :: "bool \<Rightarrow> string \<Rightarrow> string" where
  "sub_reasoning_lines bol [] = []"
| "sub_reasoning_lines bol (c # cs) =
     (case (if bol then match_reasoning_line (c # cs) else None) of
        Some rest \<Rightarrow>
          sub_reasoning_lines
            (after_newline bol (take (length (c # cs) - length rest) (c # cs))) rest
      | None \<Rightarrow> c # sub_reasoning_lines (c = CHR 0x0A) cs)"
  by pat_completeness auto
termination
  by (relation "measure (\<lambda>(bol, s). length s)")
     (auto split: if_splits dest: match_reasoning_line_shorter)

text \<open>\<open>re.sub(r"\n{3,}", "\n\n", out)\<close>: a run of three or more newlines becomes two.\<close>

function collapse_newlines :: "string \<Rightarrow> string" where
  "collapse_newlines [] = []"
| "collapse_newlines (c # cs) =
     (if 3 \<le> length (takeWhile (\<lambda>x. x = CHR 0x0A) (c # cs))
      then ''\<newline>\<newline>'' @ collapse_newlines (dropWhile (\<lambda>x. x = CHR 0x0A) (c # cs))
      else c # collapse_newlines cs)"
  by pat_completeness auto
termination
  by (relation "measure length") (auto split: if_splits simp: length_dropWhile_le less_Suc_eq_le)

text \<open>
  \<open>remove_think\<close> is the four removals, the loop over \<open>patterns\<close> and the line pattern;
  \<open>strip_think_blocks\<close> then collapses the blank lines and strips the text.
\<close>

definition remove_think :: "string \<Rightarrow> string" where
  "remove_think text =
     sub_reasoning_lines True
       (fold (\<lambda>(opens, close) out. sub_span opens close out) patterns text)"

definition strip_think_blocks :: "string \<Rightarrow> string" where
  "strip_think_blocks text = py_strip (collapse_newlines (remove_think text))"

section \<open>The client: \<open>call_cloud_api\<close>\<close>

text \<open>
  The settings read from the environment: the path list, where the legacy variable
  stands in for an unset or blank \<open>REPORT_API_RESPONSE_PATHS\<close>, and the switch for
  stripping.
\<close>

definition response_paths_csv :: "(string \<rightharpoonup> string) \<Rightarrow> string" where
  "response_paths_csv env =
     (let response_paths_csv = py_strip (getenv env ''REPORT_API_RESPONSE_PATHS'' (Some []));
          legacy_response_path =
            py_strip (getenv env ''REPORT_API_RESPONSE_PATH'' (Some ''choices.0.message.content''))
      in if response_paths_csv = [] then legacy_response_path else response_paths_csv)"

definition strip_think :: "(string \<rightharpoonup> string) \<Rightarrow> bool" where
  "strip_think env =
     (py_lower (getenv env ''REPORT_STRIP_THINK'' (Some ''true''))
        \<in> {''1'', ''true'', ''yes'', ''on''})"

text \<open>
  The steps of \<open>call_cloud_api\<close> behind the decoded response: extraction, normalisation,
  stripping and the test for an empty text.
\<close>

definition response_text :: "(string \<rightharpoonup> string) \<Rightarrow> json \<Rightarrow> error + string" where
  "response_text env result =
     (case extract_first_available result (response_paths_csv env) of
        Inl e \<Rightarrow> Inl e
      | Inr v \<Rightarrow>
          (let text = normalize_to_text (strip_think env) v;
               text = (if strip_think env then strip_think_blocks text else text)
           in if text = [] then Inl EmptyContent else Inr text))"

text \<open>
  The whole call. The network is a parameter: \<open>exchange payload\<close> is what sending the
  payload gives, the decoded JSON body or the exception of building the headers, of the
  request or of decoding. The steps that can raise stand in the order of the source.
\<close>

definition call_cloud_api ::
  "(string \<Rightarrow> json option) \<Rightarrow> (string \<rightharpoonup> string) \<Rightarrow> (json \<Rightarrow> error + json) \<Rightarrow>
   string \<Rightarrow> string \<Rightarrow> error + string" where
  "call_cloud_api loads env exchange user_prompt system_prompt =
     (case getenv_required env ''REPORT_API_URL'' None of
        Inl e \<Rightarrow> Inl e
      | Inr api_url \<Rightarrow>
          (case py_int (getenv env ''REPORT_API_TIMEOUT'' (Some ''120'')) of
             None \<Rightarrow> Inl (InvalidTimeout (getenv env ''REPORT_API_TIMEOUT'' (Some ''120'')))
           | Some timeout \<Rightarrow>
               (case build_payload loads env user_prompt system_prompt of
                  Inl e \<Rightarrow> Inl e
                | Inr payload \<Rightarrow>
                    (case exchange payload of
                       Inl e \<Rightarrow> Inl e
                     | Inr result \<Rightarrow> response_text env result))))"

section \<open>The report skeleton: \<open>ensure_minimum_sections\<close>\<close>

definition required :: "string list" where
  "required =
    [''## What I Did Today'',
     ''## Problems / Blockers'',
     ''## Root Cause'',
     ''## Attempts & Fixes'',
     ''## Key Learnings'',
     ''## Metrics'',
     ''## Next Steps (Tomorrow)'']"

definition skeleton :: "string \<Rightarrow> string \<Rightarrow> string" where
  "skeleton text date_str =
     ''# Daily Report - '' @ date_str @
     ''\<newline>\<newline>## What I Did Today\<newline>- N/A\<newline>\<newline>## Problems / Blockers\<newline>- N/A\<newline>\<newline>## Root Cause\<newline>- N/A\<newline>\<newline>## Attempts & Fixes\<newline>- N/A\<newline>\<newline>## Key Learnings\<newline>- N/A\<newline>\<newline>## Metrics\<newline>- N/A\<newline>\<newline>## Next Steps (Tomorrow)\<newline>- [ ] N/A\<newline>\<newline>---\<newline>\<newline>### Raw Model Output\<newline>'' @
     text @ ''\<newline>''"

definition ensure_minimum_sections :: "string \<Rightarrow> string \<Rightarrow> string" where
  "ensure_minimum_sections text date_str =
     (if list_all (\<lambda>sec. py_in sec text) required then text
      else skeleton text date_str)"

section \<open>Readings of the specification\<close>

text \<open>
  Three definitions that follow the words of the specification rather than the code;
  the code is compared with them below.

  The candidate paths: the configured value split at the commas and each piece trimmed,
  the legacy path a list of one element, then the fallback paths not yet present.
\<close>

definition spec_configured_paths :: "(string \<rightharpoonup> string) \<Rightarrow> string list" where
  "spec_configured_paths env =
     (case getenv_lookup env ''REPORT_API_RESPONSE_PATHS'' None of
        Some csv \<Rightarrow> map py_strip (py_split CHR '','' csv)
      | None \<Rightarrow> [getenv env ''REPORT_API_RESPONSE_PATH'' (Some ''choices.0.message.content'')])"

definition spec_candidate_paths :: "(string \<rightharpoonup> string) \<Rightarrow> string list" where
  "spec_candidate_paths env =
     spec_configured_paths env
       @ filter (\<lambda>p. p \<notin> set (spec_configured_paths env)) fallback_paths"

text \<open>
  Rendering a template: one pass over each string, in which every occurrence of a
  placeholder is replaced by the value bound to its key.
\<close>

function spec_substitute :: "(string \<times> string) list \<Rightarrow> string \<Rightarrow> string" where
  "spec_substitute m [] = []"
| "spec_substitute m (c # cs) =
     (case find (\<lambda>(k, v). prefix (''{{'' @ k @ ''}}'') (c # cs)) m of
        Some (k, v) \<Rightarrow> v @ spec_substitute m (drop (length k + 4) (c # cs))
      | None \<Rightarrow> c # spec_substitute m cs)"
  by pat_completeness auto
termination
  by (relation "measure (\<lambda>(m, s). length s)") auto

fun spec_render :: "json \<Rightarrow> (string \<times> string) list \<Rightarrow> json" where
  "spec_render (JString s) m = JString (spec_substitute m s)"
| "spec_render (JArray xs) m = JArray (map (\<lambda>x. spec_render x m) xs)"
| "spec_render (JObject d) m = JObject (map (\<lambda>(k, v). (k, spec_render v m)) d)"
| "spec_render obj m = obj"


section \<open>Facts: dotted paths\<close>

subsection \<open>Decimal numerals are read back by \<open>int()\<close>\<close>

lemma is_digit_digit_char: "k < 10 \<Longrightarrow> is_digit (digit_char k)"
  by (simp add: is_digit_def digit_char_def)

lemma digit_value_digit_char: "k < 10 \<Longrightarrow> digit_value (digit_char k) = k"
  by (simp add: digit_value_def digit_char_def)

lemma is_digit_plain:
  assumes "is_digit c"
  shows "\<not> int_isspace c" and "c \<noteq> CHR ''-''" and "c \<noteq> CHR ''+''" and "c \<noteq> CHR ''_''"
  using assms by (auto simp: is_digit_def int_isspace_def Let_def)

lemma string_of_nat_digits: "\<forall>c \<in> set (string_of_nat n). is_digit c"
proof (induction n rule: string_of_nat.induct)
  case (1 n)
  show ?case
  proof (cases "n < 10")
    case True
    then show ?thesis
      by (simp add: string_of_nat.simps [of n] is_digit_digit_char)
  next
    case False
    with 1 show ?thesis
      by (simp add: string_of_nat.simps [of n] is_digit_digit_char)
  qed
qed

lemma string_of_nat_nonempty: "string_of_nat n \<noteq> []"
  by (subst string_of_nat.simps) simp

lemma int_body_digits: "s \<noteq> [] \<Longrightarrow> \<forall>c \<in> set s. is_digit c \<Longrightarrow> int_body s"
  by (induction s rule: int_body.induct) (auto dest: is_digit_plain(4))

lemma digits_value_snoc:
  "c \<noteq> CHR ''_'' \<Longrightarrow> digits_value (s @ [c]) = 10 * digits_value s + digit_value c"
  by (simp add: digits_value_def)

lemma digits_value_single: "c \<noteq> CHR ''_'' \<Longrightarrow> digits_value [c] = digit_value c"
  by (simp add: digits_value_def)

lemma digits_value_string_of_nat: "digits_value (string_of_nat n) = n"
proof (induction n rule: string_of_nat.induct)
  case (1 n)
  show ?case
  proof (cases "n < 10")
    case True
    then show ?thesis
      by (simp add: string_of_nat.simps [of n] digits_value_single
            is_digit_plain(4) is_digit_digit_char digit_value_digit_char)
  next
    case False
    have "digit_char (n mod 10) \<noteq> CHR ''_''"
      by (rule is_digit_plain(4)) (simp add: is_digit_digit_char)
    with False 1 show ?thesis
      by (simp add: string_of_nat.simps [of n] digits_value_snoc digit_value_digit_char)
  qed
qed

lemma dropWhile_none: "s \<noteq> [] \<Longrightarrow> \<not> P (hd s) \<Longrightarrow> dropWhile P s = s"
  by (cases s) auto

lemma py_int_string_of_nat: "py_int (string_of_nat n) = Some (int n)"
proof -
  let ?s = "string_of_nat n"
  have ne: "?s \<noteq> []" by (rule string_of_nat_nonempty)
  have dig: "\<forall>c \<in> set ?s. is_digit c" by (rule string_of_nat_digits)
  have h: "is_digit (hd ?s)" and l: "is_digit (last ?s)"
    using ne dig by auto
  have 1: "dropWhile int_isspace ?s = ?s"
    using ne h by (intro dropWhile_none) (auto dest: is_digit_plain(1))
  have 2: "dropWhile int_isspace (rev ?s) = rev ?s"
    using ne l by (intro dropWhile_none) (auto simp: hd_rev dest: is_digit_plain(1))
  obtain c r where cr: "?s = c # r" using ne by (cases ?s) auto
  have t: "rev (dropWhile int_isspace (rev (dropWhile int_isspace ?s))) = ?s"
    by (simp only: 1 2 rev_rev_ident)
  have sign: "c \<noteq> CHR ''-''" "c \<noteq> CHR ''+''"
    using h cr by (auto dest: is_digit_plain)
  have body: "int_body (c # r)"
    using ne dig int_body_digits cr by metis
  have val: "digits_value (c # r) = n"
    using digits_value_string_of_nat [of n] cr by simp
  show ?thesis
    unfolding py_int_def Let_def t
    using sign body val by (simp add: cr)
qed

subsection \<open>Path extraction\<close>

lemma walk_scalar:
  "(\<forall>xs. cur \<noteq> JArray xs) \<Longrightarrow> (\<forall>d. cur \<noteq> JObject d) \<Longrightarrow>
   walk cur (part # parts) = Inl (CannotNavigate part)"
  by (cases cur) auto

text \<open>
  C2 (as amended): an empty path returns the data unchanged; otherwise the path is
  split at the dots and walked part by part. On a list the part must be an integer as
  \<open>int()\<close> reads it, a sign included: an index from \<open>0\<close> to \<open>len - 1\<close> selects by
  position, an index from \<open>-len\<close> to \<open>-1\<close> selects from the end, any other index fails
  (\<open>IndexError\<close>), and a part that is no integer fails (\<open>ValueError\<close>); the decimal
  numeral of a position below the length selects that position. On a dict the part is
  a key, and an absent key fails (\<open>KeyError\<close>). On any other value a remaining part
  fails.
\<close>

theorem extract_by_path_cases:
  "extract_by_path data [] = Inr data
   \<and> (path \<noteq> [] \<longrightarrow> extract_by_path data path = walk data (py_split CHR ''.'' path))
   \<and> walk data [] = Inr data
   \<and> (py_int part = None \<longrightarrow> walk (JArray xs) (part # parts) = Inl (ValueError part))
   \<and> (py_int part = Some i \<and> 0 \<le> i \<and> i < int (length xs)
        \<longrightarrow> walk (JArray xs) (part # parts) = walk (xs ! nat i) parts)
   \<and> (py_int part = Some i \<and> - int (length xs) \<le> i \<and> i < 0
        \<longrightarrow> walk (JArray xs) (part # parts) = walk (xs ! nat (int (length xs) + i)) parts)
   \<and> (py_int part = Some i \<and> (i < - int (length xs) \<or> int (length xs) \<le> i)
        \<longrightarrow> walk (JArray xs) (part # parts) = Inl IndexError)
   \<and> (map_of d part = Some v \<longrightarrow> walk (JObject d) (part # parts) = walk v parts)
   \<and> (map_of d part = None \<longrightarrow> walk (JObject d) (part # parts) = Inl (KeyError part))
   \<and> ((\<forall>ys. data \<noteq> JArray ys) \<and> (\<forall>e. data \<noteq> JObject e)
        \<longrightarrow> walk data (part # parts) = Inl (CannotNavigate part))
   \<and> (n < length xs \<longrightarrow> walk (JArray xs) (string_of_nat n # parts) = walk (xs ! n) parts)"
proof -
  have a: "n < length xs \<longrightarrow> walk (JArray xs) (string_of_nat n # parts) = walk (xs ! n) parts"
    by (simp add: py_int_string_of_nat list_getitem_def)
  have b: "py_int part = Some i \<and> - int (length xs) \<le> i \<and> i < 0
        \<longrightarrow> walk (JArray xs) (part # parts) = walk (xs ! nat (int (length xs) + i)) parts"
    by (simp add: list_getitem_def add.commute)
  have c: "py_int part = Some i \<and> (i < - int (length xs) \<or> int (length xs) \<le> i)
        \<longrightarrow> walk (JArray xs) (part # parts) = Inl IndexError"
    by (auto simp: list_getitem_def)
  have e: "py_int part = Some i \<and> 0 \<le> i \<and> i < int (length xs)
        \<longrightarrow> walk (JArray xs) (part # parts) = walk (xs ! nat i) parts"
    by (simp add: list_getitem_def)
  have f: "(\<forall>ys. data \<noteq> JArray ys) \<and> (\<forall>e. data \<noteq> JObject e)
        \<longrightarrow> walk data (part # parts) = Inl (CannotNavigate part)"
    using walk_scalar [of data part parts] by blast
  show ?thesis
    using a b c e f by (simp add: extract_by_path_def)
qed

theorem extract_by_path_cases_witness:
  "extract_by_path (JInt 1) [] = Inr (JInt 1)
   \<and> walk (JArray [JInt 10, JInt 20]) [''1''] = Inr (JInt 20)
   \<and> walk (JArray [JInt 10, JInt 20]) [''-2''] = Inr (JInt 10)
   \<and> walk (JArray [JInt 10]) [''7''] = Inl IndexError
   \<and> walk (JArray [JInt 10]) [''x''] = Inl (ValueError ''x'')
   \<and> walk (JObject [(''a'', JInt 1)]) [''a'', ''b''] = Inl (CannotNavigate ''b'')
   \<and> walk (JObject []) [''k''] = Inl (KeyError ''k'')
   \<and> extract_by_path (JObject [(''a'', JInt 1)]) ''a.b'' = Inl (CannotNavigate ''b'')"
proof -
  note T = extract_by_path_cases
  have r0: "extract_by_path (JInt 1) [] = Inr (JInt 1)"
    using T [where data = "JInt 1"] by blast
  have end20: "walk (JInt 20) [] = Inr (JInt 20)"
    using T [where data = "JInt 20"] by blast
  have end10: "walk (JInt 10) [] = Inr (JInt 10)"
    using T [where data = "JInt 10"] by blast
  have i1: "py_int ''1'' = Some 1" by code_simp
  have "walk (JArray [JInt 10, JInt 20]) [''1''] = walk ([JInt 10, JInt 20] ! nat 1) []"
    using T [where part = "''1''" and i = 1 and xs = "[JInt 10, JInt 20]" and parts = "[]"] i1
    by simp
  with end20 have r1: "walk (JArray [JInt 10, JInt 20]) [''1''] = Inr (JInt 20)"
    by simp
  have i2: "py_int ''-2'' = Some (- 2)" by code_simp
  have "walk (JArray [JInt 10, JInt 20]) [''-2'']
          = walk ([JInt 10, JInt 20] ! nat (int (length [JInt 10, JInt 20]) + (- 2))) []"
    using T [where part = "''-2''" and i = "- 2" and xs = "[JInt 10, JInt 20]" and parts = "[]"] i2
    by simp
  with end10 have r2: "walk (JArray [JInt 10, JInt 20]) [''-2''] = Inr (JInt 10)"
    by simp
  have i3: "py_int ''7'' = Some 7" by code_simp
  have r3: "walk (JArray [JInt 10]) [''7''] = Inl IndexError"
    using T [where part = "''7''" and i = 7 and xs = "[JInt 10]" and parts = "[]"] i3
    by simp
  have i4: "py_int ''x'' = None" by code_simp
  have r4: "walk (JArray [JInt 10]) [''x''] = Inl (ValueError ''x'')"
    using T [where part = "''x''" and xs = "[JInt 10]" and parts = "[]"] i4
    by blast
  have m5: "map_of [(''a'', JInt 1)] ''a'' = Some (JInt 1)" by simp
  have "walk (JObject [(''a'', JInt 1)]) [''a'', ''b''] = walk (JInt 1) [''b'']"
    using T [where part = "''a''" and d = "[(''a'', JInt 1)]" and v = "JInt 1" and parts = "[''b'']"] m5
    by blast
  moreover have "walk (JInt 1) [''b''] = Inl (CannotNavigate ''b'')"
    using T [where data = "JInt 1" and part = "''b''" and parts = "[]"] by simp
  ultimately have r5: "walk (JObject [(''a'', JInt 1)]) [''a'', ''b''] = Inl (CannotNavigate ''b'')"
    by simp
  have m6: "map_of ([] :: (string \<times> json) list) ''k'' = None" by simp
  have r6: "walk (JObject []) [''k''] = Inl (KeyError ''k'')"
    using T [where part = "''k''" and d = "[]" and parts = "[]"] m6 by blast
  have sp: "py_split CHR ''.'' ''a.b'' = [''a'', ''b'']" by code_simp
  have "extract_by_path (JObject [(''a'', JInt 1)]) ''a.b''
          = walk (JObject [(''a'', JInt 1)]) (py_split CHR ''.'' ''a.b'')"
    using T [where data = "JObject [(''a'', JInt 1)]" and path = "''a.b''"] by simp
  with sp r5 have r7: "extract_by_path (JObject [(''a'', JInt 1)]) ''a.b'' = Inl (CannotNavigate ''b'')"
    by simp
  from r0 r1 r2 r3 r4 r5 r6 r7 show ?thesis by blast
qed

text \<open>
  C2 as stated fails: a part that is a negative integer does not fail on a list, it
  selects from the end.
\<close>

theorem extract_by_path_negative_index:
  "extract_by_path (JArray [JInt 10, JInt 20]) ''-1'' = Inr (JInt 20)"
  by code_simp

section \<open>Facts: templates and the default payload\<close>

subsection \<open>Replacement\<close>

lemma py_replace_absent: "old \<noteq> [] \<Longrightarrow> \<not> py_in old s \<Longrightarrow> py_replace old new s = s"
proof (induction s)
  case Nil
  then show ?case by (simp add: py_replace.simps [of old new "[]"])
next
  case (Cons c cs)
  then show ?case by (simp add: py_replace.simps [of old new "c # cs"])
qed

lemma fold_replace_absent:
  "\<forall>(k, v) \<in> set m. \<not> py_in (''{{'' @ k @ ''}}'') s \<Longrightarrow>
   fold (\<lambda>(k, v) out. py_replace (''{{'' @ k @ ''}}'') v out) m s = s"
  by (induction m) (auto simp: py_replace_absent)

lemma replace_placeholders_append:
  "replace_placeholders t (m @ m') = replace_placeholders (replace_placeholders t m) m'"
  by (induction t m rule: replace_placeholders.induct) auto

lemma replace_placeholders_scalar:
  "(\<forall>s. t \<noteq> JString s) \<Longrightarrow> (\<forall>xs. t \<noteq> JArray xs) \<Longrightarrow> (\<forall>d. t \<noteq> JObject d) \<Longrightarrow>
   replace_placeholders t m = t"
  by (cases t) auto

text \<open>
  C7 (as amended): on a string the bindings are applied one after the other, in the
  order of the mapping, each by \<open>str.replace\<close> of its placeholder on the output of the
  one before, so text that a value brings in is itself rewritten by the later
  bindings; rendering with two lists of bindings in a row is rendering with the first
  and then with the second. A string in which no placeholder of the bindings occurs is
  returned as it is. A sequence is rebuilt with each element rendered, a mapping with
  each value rendered and its keys kept in order, and any other value is returned
  unchanged. The function builds new values and assigns to nothing. The example of the
  specification holds.
\<close>

theorem replace_placeholders_render:
  "replace_placeholders (JString s) m
     = JString (fold (\<lambda>(k, v) out. py_replace (''{{'' @ k @ ''}}'') v out) m s)
   \<and> replace_placeholders (JString s) [(k, v)] = JString (py_replace (''{{'' @ k @ ''}}'') v s)
   \<and> replace_placeholders t (m @ m') = replace_placeholders (replace_placeholders t m) m'
   \<and> ((\<forall>(k, v) \<in> set m. \<not> py_in (''{{'' @ k @ ''}}'') s)
        \<longrightarrow> replace_placeholders (JString s) m = JString s)
   \<and> replace_placeholders (JArray xs) m = JArray (map (\<lambda>x. replace_placeholders x m) xs)
   \<and> replace_placeholders (JObject d) m
       = JObject (map (\<lambda>(k, v). (k, replace_placeholders v m)) d)
   \<and> (replace_placeholders (JObject d) m = JObject d' \<longrightarrow> map fst d' = map fst d)
   \<and> ((\<forall>s. t \<noteq> JString s) \<and> (\<forall>xs. t \<noteq> JArray xs) \<and> (\<forall>d. t \<noteq> JObject d)
        \<longrightarrow> replace_placeholders t m = t)
   \<and> replace_placeholders
         (JObject [(''a'', JString ''{{x}}''), (''b'', JArray [JString ''{{y}}'', JInt 1])])
         [(''x'', ''1''), (''y'', ''2'')]
       = JObject [(''a'', JString ''1''), (''b'', JArray [JString ''2'', JInt 1])]"
proof -
  have a: "(\<forall>(k, v) \<in> set m. \<not> py_in (''{{'' @ k @ ''}}'') s)
        \<longrightarrow> replace_placeholders (JString s) m = JString s"
    using fold_replace_absent [of m s] by simp
  have b: "replace_placeholders (JObject d) m = JObject d' \<longrightarrow> map fst d' = map fst d"
    by (auto simp: comp_def case_prod_unfold)
  have c: "(\<forall>s. t \<noteq> JString s) \<and> (\<forall>xs. t \<noteq> JArray xs) \<and> (\<forall>d. t \<noteq> JObject d)
        \<longrightarrow> replace_placeholders t m = t"
    using replace_placeholders_scalar [of t m] by blast
  have d: "replace_placeholders
         (JObject [(''a'', JString ''{{x}}''), (''b'', JArray [JString ''{{y}}'', JInt 1])])
         [(''x'', ''1''), (''y'', ''2'')]
       = JObject [(''a'', JString ''1''), (''b'', JArray [JString ''2'', JInt 1])]"
    by code_simp
  have e: "replace_placeholders t (m @ m') = replace_placeholders (replace_placeholders t m) m'"
    by (rule replace_placeholders_append)
  from a b c d e show ?thesis by simp
qed

theorem replace_placeholders_render_witness:
  "replace_placeholders (JString ''Hello {{name}}'') [(''x'', ''1''), (''y'', ''2'')]
     = JString ''Hello {{name}}''
   \<and> replace_placeholders (JBool True) [(''x'', ''1'')] = JBool True
   \<and> map fst [(''a'', JString ''1'')] = map fst [(''a'', JString ''{{x}}'')]"
proof -
  let ?m = "[(''x'', ''1''), (''y'', ''2'')]"
  have "list_all (\<lambda>(k, v). \<not> py_in (''{{'' @ k @ ''}}'') ''Hello {{name}}'') ?m"
    by code_simp
  then have absent: "\<forall>(k, v) \<in> set ?m. \<not> py_in (''{{'' @ k @ ''}}'') ''Hello {{name}}''"
    by (simp only: list_all_iff)
  from replace_placeholders_render [of "''Hello {{name}}''" ?m _ _ JNull "[]" "[]" "[]" "[]"] absent
  have r1: "replace_placeholders (JString ''Hello {{name}}'') ?m = JString ''Hello {{name}}''"
    by blast
  have sc: "(\<forall>s. JBool True \<noteq> JString s) \<and> (\<forall>xs. JBool True \<noteq> JArray xs)
              \<and> (\<forall>d. JBool True \<noteq> JObject d)"
    by simp
  from replace_placeholders_render [of "[]" "[(''x'', ''1'')]" _ _ "JBool True" "[]" "[]" "[]" "[]"] sc
  have r2: "replace_placeholders (JBool True) [(''x'', ''1'')] = JBool True"
    by blast
  have ev: "replace_placeholders (JObject [(''a'', JString ''{{x}}'')]) [(''x'', ''1'')]
              = JObject [(''a'', JString ''1'')]"
    by code_simp
  from replace_placeholders_render
         [of "[]" "[(''x'', ''1'')]" _ _ JNull "[]" "[]" "[(''a'', JString ''{{x}}'')]"
             "[(''a'', JString ''1'')]"] ev
  have r3: "map fst [(''a'', JString ''1'')] = map fst [(''a'', JString ''{{x}}'')]"
    by blast
  from r1 r2 r3 show ?thesis by blast
qed

text \<open>
  C7 as stated fails: with the bindings of \<open>call_cloud_api\<close>, a system prompt that holds
  the placeholder of the user prompt is not put into the template as it is; the later
  binding rewrites it.
\<close>

theorem replace_placeholders_chained:
  "replace_placeholders (JString ''{{system_prompt}}'')
     [(''model'', ''m''), (''system_prompt'', ''{{user_prompt}}''), (''user_prompt'', ''hi'')]
     = JString ''hi''
   \<and> spec_render (JString ''{{system_prompt}}'')
     [(''model'', ''m''), (''system_prompt'', ''{{user_prompt}}''), (''user_prompt'', ''hi'')]
     = JString ''{{user_prompt}}''"
  by code_simp

text \<open>
  C8: with no request template configured the payload is the default body: the two
  messages, temperature \<open>0.2\<close>, top_p \<open>0.9\<close> and stream false, with a \<open>model\<close> entry
  first exactly when the model name is not empty, that is when \<open>REPORT_API_MODEL\<close> is
  set and not blank. With no model the key is absent, not present with a null value.
\<close>

theorem build_default_payload_shape:
  "build_default_payload model sp up =
     JObject ((if model = [] then [] else [(''model'', JString model)]) @
        [(''messages'',
            JArray [JObject [(''role'', JString ''system''), (''content'', JString sp)],
                    JObject [(''role'', JString ''user''), (''content'', JString up)]]),
         (''temperature'', JFloat ''0.2''),
         (''top_p'', JFloat ''0.9''),
         (''stream'', JBool False)])
   \<and> (build_default_payload model sp up = JObject d \<longrightarrow>
        (''model'' \<in> fst ` set d \<longleftrightarrow> model \<noteq> [])
        \<and> map_of d ''model'' = (if model = [] then None else Some (JString model)))
   \<and> (py_strip (getenv env ''REPORT_API_REQUEST_TEMPLATE_JSON'' (Some [])) = [] \<longrightarrow>
        build_payload loads env up sp
          = Inr (build_default_payload (getenv env ''REPORT_API_MODEL'' (Some [])) sp up))
   \<and> (getenv env ''REPORT_API_MODEL'' (Some []) \<noteq> [] \<longleftrightarrow>
        (\<exists>v. env ''REPORT_API_MODEL'' = Some v \<and> py_strip v \<noteq> []))"
proof -
  have shape: "build_default_payload model sp up =
     JObject ((if model = [] then [] else [(''model'', JString model)]) @
        [(''messages'',
            JArray [JObject [(''role'', JString ''system''), (''content'', JString sp)],
                    JObject [(''role'', JString ''user''), (''content'', JString up)]]),
         (''temperature'', JFloat ''0.2''),
         (''top_p'', JFloat ''0.9''),
         (''stream'', JBool False)])"
    by (simp add: build_default_payload_def dict_pop_def)
  have keys: "build_default_payload model sp up = JObject d \<longrightarrow>
        (''model'' \<in> fst ` set d \<longleftrightarrow> model \<noteq> [])
        \<and> map_of d ''model'' = (if model = [] then None else Some (JString model))"
    unfolding shape by auto
  have tpl: "py_strip (getenv env ''REPORT_API_REQUEST_TEMPLATE_JSON'' (Some [])) = [] \<longrightarrow>
        build_payload loads env up sp
          = Inr (build_default_payload (getenv env ''REPORT_API_MODEL'' (Some [])) sp up)"
    by (simp add: build_payload_def Let_def)
  have strip_nil: "py_strip [] = []" by (simp add: py_strip_def)
  have model: "getenv env ''REPORT_API_MODEL'' (Some []) \<noteq> [] \<longleftrightarrow>
        (\<exists>v. env ''REPORT_API_MODEL'' = Some v \<and> py_strip v \<noteq> [])"
    using strip_nil by (auto simp: getenv_def getenv_lookup_def split: option.splits)
  from shape keys tpl model show ?thesis by blast
qed

theorem build_default_payload_shape_witness:
  "build_payload (\<lambda>t. None) Map.empty ''u'' ''s''
     = Inr (JObject
        [(''messages'',
            JArray [JObject [(''role'', JString ''system''), (''content'', JString ''s'')],
                    JObject [(''role'', JString ''user''), (''content'', JString ''u'')]]),
         (''temperature'', JFloat ''0.2''),
         (''top_p'', JFloat ''0.9''),
         (''stream'', JBool False)])
   \<and> map_of
        [(''model'', JString ''demo''),
         (''messages'',
            JArray [JObject [(''role'', JString ''system''), (''content'', JString ''s'')],
                    JObject [(''role'', JString ''user''), (''content'', JString ''u'')]]),
         (''temperature'', JFloat ''0.2''),
         (''top_p'', JFloat ''0.9''),
         (''stream'', JBool False)] ''model'' = Some (JString ''demo'')"
proof -
  let ?loads = "\<lambda>t :: string. (None :: json option)"
  let ?env = "Map.empty :: string \<rightharpoonup> string"
  let ?rest = "[(''messages'',
            JArray [JObject [(''role'', JString ''system''), (''content'', JString ''s'')],
                    JObject [(''role'', JString ''user''), (''content'', JString ''u'')]]),
         (''temperature'', JFloat ''0.2''),
         (''top_p'', JFloat ''0.9''),
         (''stream'', JBool False)]"
  have blank: "py_strip (getenv ?env ''REPORT_API_REQUEST_TEMPLATE_JSON'' (Some [])) = []"
    by code_simp
  have nomodel: "getenv ?env ''REPORT_API_MODEL'' (Some []) = []"
    by code_simp
  note T = build_default_payload_shape [of "[]" "''s''" "''u''" ?rest ?env ?loads]
  from T blank have "build_payload ?loads ?env ''u'' ''s''
          = Inr (build_default_payload (getenv ?env ''REPORT_API_MODEL'' (Some [])) ''s'' ''u'')"
    by blast
  moreover from T have "build_default_payload [] ''s'' ''u'' = JObject ([] @ ?rest)"
    by simp
  ultimately have r1: "build_payload ?loads ?env ''u'' ''s'' = Inr (JObject ?rest)"
    by (simp only: nomodel append_Nil)
  note U = build_default_payload_shape [of "''demo''" "''s''" "''u''" "(''model'', JString ''demo'') # ?rest" ?env ?loads]
  from U have "build_default_payload ''demo'' ''s'' ''u'' = JObject ((''model'', JString ''demo'') # ?rest)"
    by simp
  with U have r2: "map_of ((''model'', JString ''demo'') # ?rest) ''model'' = Some (JString ''demo'')"
    by simp
  from r1 r2 show ?thesis by blast
qed

section \<open>Facts: candidate paths and extraction\<close>

subsection \<open>The candidate paths\<close>

lemma add_fallbacks_distinct:
  "distinct fs \<Longrightarrow> add_fallbacks ps fs = ps @ filter (\<lambda>p. p \<notin> set ps) fs"
proof (induction fs arbitrary: ps)
  case Nil
  then show ?case by simp
next
  case (Cons f fs)
  show ?case
  proof (cases "f \<in> set ps")
    case True
    with Cons show ?thesis by simp
  next
    case False
    have "filter (\<lambda>p. p \<notin> set (ps @ [f])) fs = filter (\<lambda>p. p \<notin> set ps) fs"
      using Cons.prems by (intro filter_cong) auto
    with False Cons show ?thesis by simp
  qed
qed

lemma distinct_fallback_paths: "distinct fallback_paths"
  by (simp add: fallback_paths_def)

lemma candidate_paths_append:
  "candidate_paths csv =
     configured_paths csv @ filter (\<lambda>p. p \<notin> set (configured_paths csv)) fallback_paths"
  unfolding candidate_paths_def
  by (rule add_fallbacks_distinct) (rule distinct_fallback_paths)

lemma configured_paths_alt:
  "configured_paths csv = filter (\<lambda>p. p \<noteq> []) (map py_strip (py_split CHR '','' csv))"
  by (simp add: configured_paths_def filter_map comp_def)

lemma fallback_subset_candidates: "set fallback_paths \<subseteq> set (candidate_paths csv)"
  by (auto simp: candidate_paths_append)

lemma candidate_paths_nonempty: "candidate_paths csv \<noteq> []"
proof -
  have "''text'' \<in> set fallback_paths" by (simp add: fallback_paths_def)
  with fallback_subset_candidates [of csv] show ?thesis by auto
qed

subsection \<open>The loop over the paths\<close>

lemma try_paths_Inr_iff:
  "try_paths data ps last_err = Inr v \<longleftrightarrow>
     (\<exists>pre p post. ps = pre @ p # post
        \<and> (\<forall>q \<in> set pre. \<exists>e. extract_by_path data q = Inl e)
        \<and> extract_by_path data p = Inr v)"
proof (induction ps arbitrary: last_err)
  case Nil
  then show ?case by simp
next
  case (Cons a ps)
  show ?case
  proof (cases "extract_by_path data a")
    case (Inr w)
    show ?thesis
    proof
      assume "try_paths data (a # ps) last_err = Inr v"
      with Inr have "w = v" by simp
      with Inr have "a # ps = [] @ a # ps \<and> (\<forall>q \<in> set []. \<exists>e. extract_by_path data q = Inl e)
        \<and> extract_by_path data a = Inr v" by simp
      then show "\<exists>pre p post. a # ps = pre @ p # post
        \<and> (\<forall>q \<in> set pre. \<exists>e. extract_by_path data q = Inl e)
        \<and> extract_by_path data p = Inr v" by blast
    next
      assume "\<exists>pre p post. a # ps = pre @ p # post
        \<and> (\<forall>q \<in> set pre. \<exists>e. extract_by_path data q = Inl e)
        \<and> extract_by_path data p = Inr v"
      then obtain pre p post where eq: "a # ps = pre @ p # post"
        and fail: "\<forall>q \<in> set pre. \<exists>e. extract_by_path data q = Inl e"
        and ok: "extract_by_path data p = Inr v" by blast
      have "pre = []"
      proof (cases pre)
        case Nil
        then show ?thesis .
      next
        case (Cons b pre')
        with eq have "b = a" by simp
        with Cons fail Inr show ?thesis by auto
      qed
      with eq ok Inr show "try_paths data (a # ps) last_err = Inr v" by simp
    qed
  next
    case (Inl e)
    have "try_paths data (a # ps) last_err = Inr v \<longleftrightarrow> try_paths data ps (Some e) = Inr v"
      using Inl by simp
    also have "\<dots> \<longleftrightarrow> (\<exists>pre p post. ps = pre @ p # post
        \<and> (\<forall>q \<in> set pre. \<exists>e. extract_by_path data q = Inl e)
        \<and> extract_by_path data p = Inr v)"
      by (rule Cons.IH)
    also have "\<dots> \<longleftrightarrow> (\<exists>pre p post. a # ps = pre @ p # post
        \<and> (\<forall>q \<in> set pre. \<exists>e. extract_by_path data q = Inl e)
        \<and> extract_by_path data p = Inr v)"
    proof
      assume "\<exists>pre p post. ps = pre @ p # post
        \<and> (\<forall>q \<in> set pre. \<exists>e. extract_by_path data q = Inl e)
        \<and> extract_by_path data p = Inr v"
      then obtain pre p post where "ps = pre @ p # post"
        "\<forall>q \<in> set pre. \<exists>e. extract_by_path data q = Inl e" "extract_by_path data p = Inr v"
        by blast
      with Inl have "a # ps = (a # pre) @ p # post
        \<and> (\<forall>q \<in> set (a # pre). \<exists>e. extract_by_path data q = Inl e)
        \<and> extract_by_path data p = Inr v" by simp
      then show "\<exists>pre p post. a # ps = pre @ p # post
        \<and> (\<forall>q \<in> set pre. \<exists>e. extract_by_path data q = Inl e)
        \<and> extract_by_path data p = Inr v" by blast
    next
      assume "\<exists>pre p post. a # ps = pre @ p # post
        \<and> (\<forall>q \<in> set pre. \<exists>e. extract_by_path data q = Inl e)
        \<and> extract_by_path data p = Inr v"
      then obtain pre p post where eq: "a # ps = pre @ p # post"
        and fail: "\<forall>q \<in> set pre. \<exists>e. extract_by_path data q = Inl e"
        and ok: "extract_by_path data p = Inr v" by blast
      from eq ok Inl obtain pre' where pre: "pre = a # pre'"
        by (cases pre) auto
      with eq fail ok have "ps = pre' @ p # post
        \<and> (\<forall>q \<in> set pre'. \<exists>e. extract_by_path data q = Inl e)
        \<and> extract_by_path data p = Inr v" by simp
      then show "\<exists>pre p post. ps = pre @ p # post
        \<and> (\<forall>q \<in> set pre. \<exists>e. extract_by_path data q = Inl e)
        \<and> extract_by_path data p = Inr v" by blast
    qed
    finally show ?thesis .
  qed
qed

lemma try_paths_all_fail:
  "\<forall>p \<in> set ps. \<exists>e. extract_by_path data p = Inl e \<Longrightarrow>
   try_paths data ps last_err =
     Inl (if ps = [] then last_err
          else (case extract_by_path data (last ps) of Inl e \<Rightarrow> Some e | Inr v \<Rightarrow> None))"
  by (induction ps arbitrary: last_err) (auto split: sum.splits)

lemma try_paths_Inl:
  "try_paths data ps last_err = Inl r \<Longrightarrow>
   (\<forall>p \<in> set ps. \<exists>e. extract_by_path data p = Inl e)
   \<and> (ps = [] \<longrightarrow> r = last_err)
   \<and> (ps \<noteq> [] \<longrightarrow> (\<exists>e. r = Some e \<and> extract_by_path data (last ps) = Inl e))"
  by (induction ps arbitrary: last_err) (auto split: sum.splits)

lemma extract_first_available_Inl:
  assumes "extract_first_available data csv = Inl e"
  shows "\<exists>err. e = ExtractionError (candidate_paths csv) err
           \<and> extract_by_path data (last (candidate_paths csv)) = Inl err
           \<and> (\<forall>p \<in> set (candidate_paths csv). \<exists>e. extract_by_path data p = Inl e)"
proof -
  from assms obtain r where r: "try_paths data (candidate_paths csv) None = Inl r"
    by (auto simp: extract_first_available_def Let_def split: sum.splits)
  from try_paths_Inl [OF r] candidate_paths_nonempty [of csv]
  obtain err where "r = Some err" "extract_by_path data (last (candidate_paths csv)) = Inl err"
    and "\<forall>p \<in> set (candidate_paths csv). \<exists>e. extract_by_path data p = Inl e"
    by blast
  with assms r show ?thesis
    by (auto simp: extract_first_available_def Let_def)
qed

lemma extract_first_available_all_fail:
  assumes "\<forall>p \<in> set (candidate_paths csv). \<exists>e. extract_by_path data p = Inl e"
  shows "\<exists>err. extract_first_available data csv = Inl (ExtractionError (candidate_paths csv) err)
           \<and> extract_by_path data (last (candidate_paths csv)) = Inl err"
proof -
  from assms candidate_paths_nonempty [of csv]
  obtain err where "extract_by_path data (last (candidate_paths csv)) = Inl err"
    by (meson last_in_set)
  with try_paths_all_fail [OF assms, of None] candidate_paths_nonempty [of csv]
  show ?thesis
    by (simp add: extract_first_available_def Let_def)
qed

lemma extract_first_available_Inr_iff:
  "extract_first_available data csv = Inr v \<longleftrightarrow>
     (\<exists>pre p post. candidate_paths csv = pre @ p # post
        \<and> (\<forall>q \<in> set pre. \<exists>e. extract_by_path data q = Inl e)
        \<and> extract_by_path data p = Inr v)"
proof -
  have "extract_first_available data csv = Inr v
          \<longleftrightarrow> try_paths data (candidate_paths csv) None = Inr v"
    by (auto simp: extract_first_available_def Let_def split: sum.splits option.splits)
  then show ?thesis by (simp only: try_paths_Inr_iff)
qed

text \<open>
  C3 (as amended): the candidate paths are the configured paths followed by the
  fallback paths that are not among them, in the fixed order. The configured paths are
  the pieces of the configured value between commas, each trimmed, the empty ones
  dropped; the configured value is \<open>REPORT_API_RESPONSE_PATHS\<close> trimmed, or, when that
  is unset or blank, the legacy \<open>REPORT_API_RESPONSE_PATH\<close> trimmed (by default
  \<open>choices.0.message.content\<close>), which is split at commas in the same way. The value
  returned is that of the first candidate path that resolves.
\<close>

theorem candidate_paths_first_resolving:
  "candidate_paths csv =
     configured_paths csv @ filter (\<lambda>p. p \<notin> set (configured_paths csv)) fallback_paths
   \<and> configured_paths csv = filter (\<lambda>p. p \<noteq> []) (map py_strip (py_split CHR '','' csv))
   \<and> (extract_first_available data csv = Inr v \<longleftrightarrow>
        (\<exists>pre p post. candidate_paths csv = pre @ p # post
           \<and> (\<forall>q \<in> set pre. \<exists>e. extract_by_path data q = Inl e)
           \<and> extract_by_path data p = Inr v))
   \<and> (getenv_lookup env ''REPORT_API_RESPONSE_PATHS'' None = Some c
        \<longrightarrow> response_paths_csv env = py_strip c)
   \<and> (getenv_lookup env ''REPORT_API_RESPONSE_PATHS'' None = None
        \<longrightarrow> response_paths_csv env
             = py_strip (getenv env ''REPORT_API_RESPONSE_PATH'' (Some ''choices.0.message.content'')))
   \<and> (env ''REPORT_API_RESPONSE_PATHS'' = None \<and> env ''REPORT_API_RESPONSE_PATH'' = None
        \<longrightarrow> candidate_paths (response_paths_csv env) =
              [''choices.0.message.content'',
               ''choices.0.message.final'',
               ''choices.0.message.answer'',
               ''choices.0.text'',
               ''response.output_text'',
               ''output_text'',
               ''data.text'',
               ''text''])"
proof -
  have set_case: "getenv_lookup env ''REPORT_API_RESPONSE_PATHS'' None = Some c
        \<longrightarrow> response_paths_csv env = py_strip c"
  proof
    assume a: "getenv_lookup env ''REPORT_API_RESPONSE_PATHS'' None = Some c"
    then have "py_strip c \<noteq> []"
      by (auto simp: getenv_lookup_def split: option.splits if_splits)
    moreover from a have "getenv_lookup env ''REPORT_API_RESPONSE_PATHS'' (Some []) = Some c"
      by (auto simp: getenv_lookup_def split: option.splits if_splits)
    ultimately show "response_paths_csv env = py_strip c"
      by (simp add: response_paths_csv_def getenv_def Let_def)
  qed
  have strip_nil: "py_strip [] = []" by (simp add: py_strip_def)
  have unset_case: "getenv_lookup env ''REPORT_API_RESPONSE_PATHS'' None = None
        \<longrightarrow> response_paths_csv env
             = py_strip (getenv env ''REPORT_API_RESPONSE_PATH'' (Some ''choices.0.message.content''))"
  proof
    assume a: "getenv_lookup env ''REPORT_API_RESPONSE_PATHS'' None = None"
    then have "getenv_lookup env ''REPORT_API_RESPONSE_PATHS'' (Some []) = Some []"
      by (auto simp: getenv_lookup_def split: option.splits if_splits)
    then show "response_paths_csv env
             = py_strip (getenv env ''REPORT_API_RESPONSE_PATH'' (Some ''choices.0.message.content''))"
      by (simp add: response_paths_csv_def getenv_def Let_def strip_nil)
  qed
  have dflt: "candidate_paths (py_strip ''choices.0.message.content'') =
              [''choices.0.message.content'',
               ''choices.0.message.final'',
               ''choices.0.message.answer'',
               ''choices.0.text'',
               ''response.output_text'',
               ''output_text'',
               ''data.text'',
               ''text'']"
    by code_simp
  have default_case: "env ''REPORT_API_RESPONSE_PATHS'' = None \<and> env ''REPORT_API_RESPONSE_PATH'' = None
        \<longrightarrow> candidate_paths (response_paths_csv env) =
              [''choices.0.message.content'',
               ''choices.0.message.final'',
               ''choices.0.message.answer'',
               ''choices.0.text'',
               ''response.output_text'',
               ''output_text'',
               ''data.text'',
               ''text'']"
  proof
    assume a: "env ''REPORT_API_RESPONSE_PATHS'' = None \<and> env ''REPORT_API_RESPONSE_PATH'' = None"
    then have "response_paths_csv env = py_strip ''choices.0.message.content''"
      by (simp add: response_paths_csv_def getenv_def getenv_lookup_def strip_nil)
    then show "candidate_paths (response_paths_csv env) =
              [''choices.0.message.content'',
               ''choices.0.message.final'',
               ''choices.0.message.answer'',
               ''choices.0.text'',
               ''response.output_text'',
               ''output_text'',
               ''data.text'',
               ''text'']"
      by (simp only: dflt)
  qed
  show ?thesis
    using candidate_paths_append [of csv] configured_paths_alt [of csv]
      extract_first_available_Inr_iff [of data csv v] set_case unset_case default_case
    by blast
qed

theorem candidate_paths_first_resolving_witness:
  "extract_first_available
     (JObject [(''data'', JObject [(''text'', JString ''custom-ok'')])]) ''data.text''
     = Inr (JString ''custom-ok'')
   \<and> response_paths_csv [''REPORT_API_RESPONSE_PATHS'' \<mapsto> '' data.text, text ''] = ''data.text, text''
   \<and> response_paths_csv [''REPORT_API_RESPONSE_PATH'' \<mapsto> ''data.text''] = ''data.text''
   \<and> candidate_paths (response_paths_csv Map.empty) =
         [''choices.0.message.content'',
          ''choices.0.message.final'',
          ''choices.0.message.answer'',
          ''choices.0.text'',
          ''response.output_text'',
          ''output_text'',
          ''data.text'',
          ''text'']"
proof -
  let ?data = "JObject [(''data'', JObject [(''text'', JString ''custom-ok'')])]"
  let ?env1 = "[''REPORT_API_RESPONSE_PATHS'' \<mapsto> '' data.text, text '']"
  let ?env2 = "[''REPORT_API_RESPONSE_PATH'' \<mapsto> ''data.text'']"
  have cfg: "configured_paths ''data.text'' = [''data.text'']"
    by code_simp
  have ok: "extract_by_path ?data ''data.text'' = Inr (JString ''custom-ok'')"
    by code_simp
  have l1: "getenv_lookup ?env1 ''REPORT_API_RESPONSE_PATHS'' None = Some '' data.text, text ''"
    by code_simp
  have s1: "py_strip '' data.text, text '' = ''data.text, text''"
    by code_simp
  have l2: "getenv_lookup ?env2 ''REPORT_API_RESPONSE_PATHS'' None = None"
    by code_simp
  have s2: "py_strip (getenv ?env2 ''REPORT_API_RESPONSE_PATH'' (Some ''choices.0.message.content''))
              = ''data.text''"
    by code_simp
  have e3: "Map.empty ''REPORT_API_RESPONSE_PATHS'' = (None :: string option)
              \<and> Map.empty ''REPORT_API_RESPONSE_PATH'' = (None :: string option)"
    by simp
  have "candidate_paths ''data.text''
          = configured_paths ''data.text''
              @ filter (\<lambda>p. p \<notin> set (configured_paths ''data.text'')) fallback_paths"
    using candidate_paths_first_resolving [of "''data.text''" ?data "JString ''custom-ok''" ?env1 "'' data.text, text ''"]
    by blast
  then have "candidate_paths ''data.text''
          = [] @ ''data.text'' # filter (\<lambda>p. p \<notin> set [''data.text'']) fallback_paths"
    by (simp only: cfg append_Cons append_Nil)
  with ok have "\<exists>pre p post. candidate_paths ''data.text'' = pre @ p # post
           \<and> (\<forall>q \<in> set pre. \<exists>e. extract_by_path ?data q = Inl e)
           \<and> extract_by_path ?data p = Inr (JString ''custom-ok'')"
    by (metis empty_iff empty_set)
  with candidate_paths_first_resolving [of "''data.text''" ?data "JString ''custom-ok''" ?env1 "'' data.text, text ''"]
  have "extract_first_available ?data ''data.text'' = Inr (JString ''custom-ok'')"
    by blast
  moreover
  have "response_paths_csv ?env1 = ''data.text, text''"
    using candidate_paths_first_resolving [of "''data.text''" ?data "JString ''custom-ok''" ?env1 "'' data.text, text ''"] l1 s1
    by simp
  moreover
  have "response_paths_csv ?env2 = ''data.text''"
    using candidate_paths_first_resolving [of "''data.text''" ?data "JString ''custom-ok''" ?env2 "[]"] l2 s2
    by simp
  moreover
  have "candidate_paths (response_paths_csv Map.empty) =
         [''choices.0.message.content'',
          ''choices.0.message.final'',
          ''choices.0.message.answer'',
          ''choices.0.text'',
          ''response.output_text'',
          ''output_text'',
          ''data.text'',
          ''text'']"
    using candidate_paths_first_resolving [of "''data.text''" ?data "JString ''custom-ok''" Map.empty "[]"] e3
    by blast
  ultimately show ?thesis by blast
qed

text \<open>
  C3 as stated fails: an empty piece of the list is dropped, where the stated list
  would hold the empty path, which resolves to the whole response; and a legacy path
  with a comma gives two paths, not one.
\<close>

theorem candidate_paths_not_as_stated:
  "candidate_paths (response_paths_csv [''REPORT_API_RESPONSE_PATHS'' \<mapsto> ''data.text,''])
     \<noteq> spec_candidate_paths [''REPORT_API_RESPONSE_PATHS'' \<mapsto> ''data.text,'']
   \<and> try_paths (JString ''x'')
        (spec_candidate_paths [''REPORT_API_RESPONSE_PATHS'' \<mapsto> ''data.text,'']) None
       = Inr (JString ''x'')
   \<and> extract_first_available (JString ''x'')
        (response_paths_csv [''REPORT_API_RESPONSE_PATHS'' \<mapsto> ''data.text,''])
       \<noteq> Inr (JString ''x'')
   \<and> candidate_paths (response_paths_csv [''REPORT_API_RESPONSE_PATH'' \<mapsto> ''a,b''])
     \<noteq> spec_candidate_paths [''REPORT_API_RESPONSE_PATH'' \<mapsto> ''a,b'']"
  by code_simp

text \<open>
  C10: the candidate list is never empty, since it holds every fallback path; so
  \<open>_extract_first_available\<close> never raises "No response paths configured", and when
  it fails the error lists the candidate paths and carries the error of the last one.
\<close>

theorem no_response_paths_unreachable:
  "candidate_paths csv \<noteq> []
   \<and> set fallback_paths \<subseteq> set (candidate_paths csv)
   \<and> extract_first_available data csv \<noteq> Inl NoResponsePaths
   \<and> (\<forall>e. extract_first_available data csv = Inl e \<longrightarrow>
         (\<exists>err. e = ExtractionError (candidate_paths csv) err
            \<and> extract_by_path data (last (candidate_paths csv)) = Inl err))"
proof -
  have "extract_first_available data csv \<noteq> Inl NoResponsePaths"
    using extract_first_available_Inl [of data csv NoResponsePaths] by auto
  moreover have "\<forall>e. extract_first_available data csv = Inl e \<longrightarrow>
         (\<exists>err. e = ExtractionError (candidate_paths csv) err
            \<and> extract_by_path data (last (candidate_paths csv)) = Inl err)"
    using extract_first_available_Inl [of data csv] by blast
  ultimately show ?thesis
    using candidate_paths_nonempty [of csv] fallback_subset_candidates [of csv] by blast
qed

theorem no_response_paths_unreachable_witness:
  "extract_first_available (JObject []) [] =
     Inl (ExtractionError
            [''choices.0.message.final'',
             ''choices.0.message.answer'',
             ''choices.0.message.content'',
             ''choices.0.text'',
             ''response.output_text'',
             ''output_text'',
             ''data.text'',
             ''text'']
            (KeyError ''text''))"
proof -
  have c: "candidate_paths [] =
            [''choices.0.message.final'',
             ''choices.0.message.answer'',
             ''choices.0.message.content'',
             ''choices.0.text'',
             ''response.output_text'',
             ''output_text'',
             ''data.text'',
             ''text'']"
    by code_simp
  have l: "extract_by_path (JObject []) ''text'' = Inl (KeyError ''text'')"
    by code_simp
  have "isl (extract_first_available (JObject []) [])"
    by code_simp
  then have f: "\<exists>e. extract_first_available (JObject []) [] = Inl e"
    by (simp add: isl_def)
  then obtain e where e: "extract_first_available (JObject []) [] = Inl e" ..
  with no_response_paths_unreachable [of "[]" "JObject []"]
  obtain err where "e = ExtractionError (candidate_paths []) err"
    and "extract_by_path (JObject []) (last (candidate_paths [])) = Inl err"
    by blast
  with e c l show ?thesis by simp
qed

section \<open>Facts: the client\<close>

lemma response_text_nonempty: "response_text env result = Inr text \<Longrightarrow> text \<noteq> []"
  by (auto simp: response_text_def Let_def split: sum.splits if_splits)

lemma call_cloud_api_Inr:
  assumes "call_cloud_api loads env exchange up sp = Inr text"
  shows "\<exists>payload result. exchange payload = Inr result \<and> response_text env result = Inr text"
  using assms
  by (auto simp: call_cloud_api_def split: sum.splits option.splits)

text \<open>
  C4: \<open>call_cloud_api\<close> never returns an empty string. A text it returns is not empty
  and is the text of some decoded response; when every candidate path fails on the
  decoded response the call fails with the extraction error, which lists the candidate
  paths and the error of the last one; and when the text is empty after normalising
  and, where enabled, stripping, the call fails with the error for empty content.
\<close>

theorem call_cloud_api_never_empty:
  "(call_cloud_api loads env exchange up sp = Inr text \<longrightarrow>
      text \<noteq> []
      \<and> (\<exists>payload result. exchange payload = Inr result \<and> response_text env result = Inr text))
   \<and> (response_text env result = Inr text \<longrightarrow> text \<noteq> [])
   \<and> ((\<forall>p \<in> set (candidate_paths (response_paths_csv env)).
          \<exists>e. extract_by_path result p = Inl e) \<longrightarrow>
        (\<exists>err. response_text env result
                 = Inl (ExtractionError (candidate_paths (response_paths_csv env)) err)
           \<and> extract_by_path result (last (candidate_paths (response_paths_csv env))) = Inl err))
   \<and> (extract_first_available result (response_paths_csv env) = Inr v
        \<and> (if strip_think env then strip_think_blocks (normalize_to_text True v)
            else normalize_to_text False v) = []
        \<longrightarrow> response_text env result = Inl EmptyContent)
   \<and> (getenv_required env ''REPORT_API_URL'' None = Inr url
        \<and> py_int (getenv env ''REPORT_API_TIMEOUT'' (Some ''120'')) = Some t
        \<and> build_payload loads env up sp = Inr payload
        \<and> exchange payload = Inr result
        \<longrightarrow> call_cloud_api loads env exchange up sp = response_text env result)"
proof -
  have a: "call_cloud_api loads env exchange up sp = Inr text \<longrightarrow>
      text \<noteq> []
      \<and> (\<exists>payload result. exchange payload = Inr result \<and> response_text env result = Inr text)"
    using call_cloud_api_Inr [of loads env exchange up sp "text"] response_text_nonempty [of env _ "text"]
    by blast
  have b: "response_text env result = Inr text \<longrightarrow> text \<noteq> []"
    using response_text_nonempty by blast
  have c: "(\<forall>p \<in> set (candidate_paths (response_paths_csv env)).
          \<exists>e. extract_by_path result p = Inl e) \<longrightarrow>
        (\<exists>err. response_text env result
                 = Inl (ExtractionError (candidate_paths (response_paths_csv env)) err)
           \<and> extract_by_path result (last (candidate_paths (response_paths_csv env))) = Inl err)"
  proof
    assume "\<forall>p \<in> set (candidate_paths (response_paths_csv env)).
          \<exists>e. extract_by_path result p = Inl e"
    from extract_first_available_all_fail [OF this]
    show "\<exists>err. response_text env result
                 = Inl (ExtractionError (candidate_paths (response_paths_csv env)) err)
           \<and> extract_by_path result (last (candidate_paths (response_paths_csv env))) = Inl err"
      by (auto simp: response_text_def)
  qed
  have d: "extract_first_available result (response_paths_csv env) = Inr v
        \<and> (if strip_think env then strip_think_blocks (normalize_to_text True v)
            else normalize_to_text False v) = []
        \<longrightarrow> response_text env result = Inl EmptyContent"
    by (auto simp: response_text_def Let_def)
  have e: "getenv_required env ''REPORT_API_URL'' None = Inr url
        \<and> py_int (getenv env ''REPORT_API_TIMEOUT'' (Some ''120'')) = Some t
        \<and> build_payload loads env up sp = Inr payload
        \<and> exchange payload = Inr result
        \<longrightarrow> call_cloud_api loads env exchange up sp = response_text env result"
    by (simp add: call_cloud_api_def)
  from a b c d e show ?thesis by blast
qed

theorem call_cloud_api_never_empty_witness:
  "call_cloud_api (\<lambda>t. None) [''REPORT_API_URL'' \<mapsto> ''https://api.example.com/v1'']
     (\<lambda>payload. Inr (JObject [(''choices'', JArray [JObject [(''message'',
         JObject [(''content'', JString ''<think>x</think>Hello'')])]])]))
     ''u'' ''s'' = Inr ''Hello''
   \<and> ''Hello'' \<noteq> []
   \<and> response_text [''REPORT_API_URL'' \<mapsto> ''https://api.example.com/v1'']
        (JObject [(''text'', JString ''<think>x</think>'')]) = Inl EmptyContent
   \<and> response_text [''REPORT_API_URL'' \<mapsto> ''https://api.example.com/v1''] (JObject [])
       = Inl (ExtractionError
            [''choices.0.message.content'',
             ''choices.0.message.final'',
             ''choices.0.message.answer'',
             ''choices.0.text'',
             ''response.output_text'',
             ''output_text'',
             ''data.text'',
             ''text'']
            (KeyError ''text''))"
proof -
  let ?env = "[''REPORT_API_URL'' \<mapsto> ''https://api.example.com/v1'']"
  let ?reply = "JObject [(''choices'', JArray [JObject [(''message'',
         JObject [(''content'', JString ''<think>x</think>Hello'')])]])]"
  let ?loads = "\<lambda>t :: string. (None :: json option)"
  let ?exchange = "\<lambda>payload :: json. (Inr ?reply :: error + json)"
  note T = call_cloud_api_never_empty [of ?loads ?env ?exchange "''u''" "''s''" "''Hello''"]
  have run: "call_cloud_api ?loads ?env ?exchange ''u'' ''s'' = Inr ''Hello''"
    by code_simp
  from T [of "JObject []"] run have ne: "''Hello'' \<noteq> []" by blast
  have ex: "extract_first_available (JObject [(''text'', JString ''<think>x</think>'')])
              (response_paths_csv ?env) = Inr (JString ''<think>x</think>'')"
    by code_simp
  have st: "strip_think ?env" by code_simp
  have em: "strip_think_blocks (normalize_to_text True (JString ''<think>x</think>'')) = []"
    by code_simp
  from T [of "JObject [(''text'', JString ''<think>x</think>'')]" "JString ''<think>x</think>''"]
    ex st em
  have empty: "response_text ?env (JObject [(''text'', JString ''<think>x</think>'')])
                 = Inl EmptyContent"
    by simp
  have cands: "candidate_paths (response_paths_csv ?env) =
            [''choices.0.message.content'',
             ''choices.0.message.final'',
             ''choices.0.message.answer'',
             ''choices.0.text'',
             ''response.output_text'',
             ''output_text'',
             ''data.text'',
             ''text'']"
    by code_simp
  have "list_all (\<lambda>p. isl (extract_by_path (JObject []) p)) (candidate_paths (response_paths_csv ?env))"
    by code_simp
  then have fails: "\<forall>p \<in> set (candidate_paths (response_paths_csv ?env)).
                      \<exists>e. extract_by_path (JObject []) p = Inl e"
    by (simp add: list_all_iff isl_def)
  have l: "extract_by_path (JObject []) ''text'' = Inl (KeyError ''text'')"
    by code_simp
  from T [of "JObject []"] fails
  obtain err where "response_text ?env (JObject [])
                 = Inl (ExtractionError (candidate_paths (response_paths_csv ?env)) err)"
    and "extract_by_path (JObject []) (last (candidate_paths (response_paths_csv ?env))) = Inl err"
    by blast
  with cands l have "response_text ?env (JObject [])
       = Inl (ExtractionError
            [''choices.0.message.content'',
             ''choices.0.message.final'',
             ''choices.0.message.answer'',
             ''choices.0.text'',
             ''response.output_text'',
             ''output_text'',
             ''data.text'',
             ''text'']
            (KeyError ''text''))"
    by simp
  with run ne empty show ?thesis by blast
qed

section \<open>Facts: normalisation\<close>

subsection \<open>Fields of a mapping\<close>

lemma usable_field_iff:
  "usable_field d k = Some v \<longleftrightarrow> map_of d k = Some v \<and> v \<noteq> JNull \<and> v \<noteq> JString []"
  by (auto simp: usable_field_def split: option.splits)

lemma first_field_None: "(\<forall>k \<in> set ks. usable_field d k = None) \<Longrightarrow> first_field d ks = None"
  by (induction ks) auto

lemma first_field_first:
  "\<forall>k' \<in> set pre. usable_field d k' = None \<Longrightarrow> usable_field d k = Some v \<Longrightarrow>
   first_field d (pre @ k # post) = Some v"
  by (induction pre) auto

lemma json_dumps_object_nonempty: "json_dumps (JObject d) \<noteq> []"
  by simp

subsection \<open>Content blocks\<close>

lemma block_chunks_Cons:
  "block_chunks st (item # items) = block_chunks st [item] @ block_chunks st items"
  by (cases item) (auto simp: Let_def split: option.splits)

lemma block_chunks_concat:
  "block_chunks st items = concat (map (\<lambda>item. block_chunks st [item]) items)"
proof (induction items)
  case Nil
  then show ?case by simp
next
  case (Cons item items)
  have "block_chunks st (item # items) = block_chunks st [item] @ block_chunks st items"
    by (rule block_chunks_Cons)
  with Cons show ?case by simp
qed

text \<open>
  C5 (as amended): on a mapping the fields \<open>final\<close>, \<open>answer\<close>, \<open>output_text\<close>, \<open>text\<close>,
  \<open>content\<close> are tried in that order, and the result is the normalisation of the first
  one that is present and neither null nor the empty string; if there is none, it is
  the normalisation of a \<open>message\<close> field that is present and neither null nor the
  empty string; otherwise it is the mapping serialised by \<open>json.dumps\<close> with its default
  separators, which is never empty. Normalisation of a mapping never fails; the text
  may be empty when the field it recurses into normalises to the empty text.
\<close>

theorem normalize_mapping_priority:
  "(usable_field d k = Some v \<longleftrightarrow> map_of d k = Some v \<and> v \<noteq> JNull \<and> v \<noteq> JString [])
   \<and> ([''final'', ''answer'', ''output_text'', ''text'', ''content''] = pre @ k # post
        \<and> (\<forall>k' \<in> set pre. usable_field d k' = None)
        \<and> usable_field d k = Some v
        \<longrightarrow> normalize_to_text st (JObject d) = normalize_to_text st v)
   \<and> ((\<forall>k' \<in> set [''final'', ''answer'', ''output_text'', ''text'', ''content''].
           usable_field d k' = None)
        \<and> usable_field d ''message'' = Some m
        \<longrightarrow> normalize_to_text st (JObject d) = normalize_to_text st m)
   \<and> ((\<forall>k' \<in> set [''final'', ''answer'', ''output_text'', ''text'', ''content''].
           usable_field d k' = None)
        \<and> usable_field d ''message'' = None
        \<longrightarrow> normalize_to_text st (JObject d) = json_dumps (JObject d)
            \<and> json_dumps (JObject d) \<noteq> [])"
proof -
  let ?keys = "[''final'', ''answer'', ''output_text'', ''text'', ''content'']"
  have a: "?keys = pre @ k # post
        \<and> (\<forall>k' \<in> set pre. usable_field d k' = None)
        \<and> usable_field d k = Some v
        \<longrightarrow> normalize_to_text st (JObject d) = normalize_to_text st v"
  proof
    assume h: "?keys = pre @ k # post
        \<and> (\<forall>k' \<in> set pre. usable_field d k' = None)
        \<and> usable_field d k = Some v"
    then have "first_field d (pre @ k # post) = Some v"
      by (intro first_field_first) auto
    with h have "first_field d ?keys = Some v" by simp
    then show "normalize_to_text st (JObject d) = normalize_to_text st v"
      by (simp del: first_field.simps)
  qed
  have none: "(\<forall>k' \<in> set ?keys. usable_field d k' = None) \<Longrightarrow> first_field d ?keys = None"
    by (rule first_field_None)
  have b: "(\<forall>k' \<in> set ?keys. usable_field d k' = None)
        \<and> usable_field d ''message'' = Some m
        \<longrightarrow> normalize_to_text st (JObject d) = normalize_to_text st m"
    using none by (simp del: first_field.simps)
  have c: "(\<forall>k' \<in> set ?keys. usable_field d k' = None)
        \<and> usable_field d ''message'' = None
        \<longrightarrow> normalize_to_text st (JObject d) = json_dumps (JObject d)
            \<and> json_dumps (JObject d) \<noteq> []"
    using none by (simp del: first_field.simps json_dumps.simps add: json_dumps_object_nonempty)
  from a b c usable_field_iff [of d k v] show ?thesis by blast
qed

theorem normalize_mapping_priority_witness:
  "normalize_to_text True
     (JObject [(''final'', JNull), (''text'', JString '' hi ''), (''content'', JString ''other'')])
     = ''hi''
   \<and> normalize_to_text True
     (JObject [(''content'', JString []), (''message'', JObject [(''content'', JString ''ok'')])])
     = ''ok''
   \<and> normalize_to_text True (JObject [(''final'', JNull)])
       = ''{'' @ [CHR 0x22] @ ''final'' @ [CHR 0x22] @ '': null}''"
proof -
  let ?d1 = "[(''final'', JNull), (''text'', JString '' hi ''), (''content'', JString ''other'')]"
  let ?d2 = "[(''content'', JString []), (''message'', JObject [(''content'', JString ''ok'')])]"
  let ?d3 = "[(''final'', JNull)]"
  let ?keys = "[''final'', ''answer'', ''output_text'', ''text'', ''content'']"
  have split: "?keys = [''final'', ''answer'', ''output_text''] @ ''text'' # [''content'']"
    by simp
  have pre1: "\<forall>k' \<in> set [''final'', ''answer'', ''output_text'']. usable_field ?d1 k' = None"
    by (simp add: usable_field_def)
  have u1: "usable_field ?d1 ''text'' = Some (JString '' hi '')"
    by (simp add: usable_field_def)
  have n1: "normalize_to_text True (JString '' hi '') = ''hi''"
    by code_simp
  from normalize_mapping_priority
         [of ?d1 "''text''" "JString '' hi ''" "[''final'', ''answer'', ''output_text'']"
             "[''content'']" True]
       split pre1 u1 n1
  have r1: "normalize_to_text True (JObject ?d1) = ''hi''" by presburger
  have all2: "\<forall>k' \<in> set ?keys. usable_field ?d2 k' = None"
    by (simp add: usable_field_def)
  have m2: "usable_field ?d2 ''message'' = Some (JObject [(''content'', JString ''ok'')])"
    by (simp add: usable_field_def)
  have n2: "normalize_to_text True (JObject [(''content'', JString ''ok'')]) = ''ok''"
    by code_simp
  from normalize_mapping_priority [of ?d2 _ _ _ _ True "JObject [(''content'', JString ''ok'')]"]
       all2 m2 n2
  have r2: "normalize_to_text True (JObject ?d2) = ''ok''" by presburger
  have all3: "\<forall>k' \<in> set ?keys. usable_field ?d3 k' = None"
    by (simp add: usable_field_def)
  have m3: "usable_field ?d3 ''message'' = None"
    by (simp add: usable_field_def)
  have j3: "json_dumps (JObject ?d3) = ''{'' @ [CHR 0x22] @ ''final'' @ [CHR 0x22] @ '': null}''"
    by code_simp
  from normalize_mapping_priority [of ?d3 _ _ _ _ True] all3 m3 j3
  have r3: "normalize_to_text True (JObject ?d3)
              = ''{'' @ [CHR 0x22] @ ''final'' @ [CHR 0x22] @ '': null}''" by presburger
  from r1 r2 r3 show ?thesis by blast
qed

text \<open>
  C5 as stated fails: a mapping whose chosen field is blank normalises to the empty
  text, and the serialisation puts a space after the colon and the comma, so it is not
  the compact form.
\<close>

theorem normalize_mapping_empty_text:
  "normalize_to_text True (JObject [(''final'', JString '' '')]) = []
   \<and> normalize_to_text True (JObject [(''a'', JInt 1)])
       = ''{'' @ [CHR 0x22] @ ''a'' @ [CHR 0x22] @ '': 1}''"
  by code_simp

text \<open>
  C6 (as amended): on a sequence each element contributes on its own, in order. An
  element that is no mapping contributes its \<open>str\<close>. A mapping whose \<open>type\<close>, as a
  string in lower case, is \<open>reasoning\<close>, \<open>thought\<close> or \<open>thinking\<close> contributes nothing
  when stripping is enabled. A mapping whose type in lower case is \<open>text\<close> contributes
  the \<open>str\<close> of its \<open>text\<close> field when that is present and true, and nothing otherwise.
  Any other mapping contributes the \<open>str\<close> of its \<open>text\<close> field when present, else of
  its \<open>content\<close> field when present, else nothing. The chunks that are not empty are
  joined by newlines and the result is stripped. The example of the specification
  gives \<open>keep\<close>.
\<close>

theorem normalize_sequence_blocks:
  "normalize_to_text st (JArray items)
     = py_strip (py_join ''\<newline>''
         (filter (\<lambda>c. c \<noteq> []) (concat (map (\<lambda>item. block_chunks st [item]) items))))
   \<and> ((\<forall>d. item \<noteq> JObject d) \<longrightarrow> block_chunks st [item] = [py_str item])
   \<and> (st \<and> py_lower (py_str (dict_get d ''type'' (JString [])))
               \<in> {''reasoning'', ''thought'', ''thinking''}
        \<longrightarrow> block_chunks st [JObject d] = [])
   \<and> (py_lower (py_str (dict_get d ''type'' (JString []))) = ''text''
        \<longrightarrow> block_chunks st [JObject d]
             = (if truthy (dict_get d ''text'' (JString []))
                then [py_str (dict_get d ''text'' (JString []))] else []))
   \<and> (\<not> (st \<and> py_lower (py_str (dict_get d ''type'' (JString [])))
                  \<in> {''reasoning'', ''thought'', ''thinking''})
        \<and> py_lower (py_str (dict_get d ''type'' (JString []))) \<noteq> ''text''
        \<longrightarrow> block_chunks st [JObject d]
             = (case map_of d ''text'' of
                  Some t \<Rightarrow> [py_str t]
                | None \<Rightarrow> (case map_of d ''content'' of Some c \<Rightarrow> [py_str c] | None \<Rightarrow> [])))
   \<and> normalize_to_text True
         (JArray [JObject [(''type'', JString ''reasoning''), (''text'', JString ''skip'')],
                  JObject [(''type'', JString ''text''), (''text'', JString ''keep'')]])
       = ''keep''"
proof -
  have a: "normalize_to_text st (JArray items)
     = py_strip (py_join ''\<newline>''
         (filter (\<lambda>c. c \<noteq> []) (concat (map (\<lambda>item. block_chunks st [item]) items))))"
    using block_chunks_concat [of st items] by simp
  have b: "(\<forall>d. item \<noteq> JObject d) \<longrightarrow> block_chunks st [item] = [py_str item]"
    by (cases item) auto
  have c: "st \<and> py_lower (py_str (dict_get d ''type'' (JString [])))
               \<in> {''reasoning'', ''thought'', ''thinking''}
        \<longrightarrow> block_chunks st [JObject d] = []"
    by (simp add: Let_def)
  have d: "py_lower (py_str (dict_get d ''type'' (JString []))) = ''text''
        \<longrightarrow> block_chunks st [JObject d]
             = (if truthy (dict_get d ''text'' (JString []))
                then [py_str (dict_get d ''text'' (JString []))] else [])"
    by (simp add: Let_def)
  have e: "\<not> (st \<and> py_lower (py_str (dict_get d ''type'' (JString [])))
                  \<in> {''reasoning'', ''thought'', ''thinking''})
        \<and> py_lower (py_str (dict_get d ''type'' (JString []))) \<noteq> ''text''
        \<longrightarrow> block_chunks st [JObject d]
             = (case map_of d ''text'' of
                  Some t \<Rightarrow> [py_str t]
                | None \<Rightarrow> (case map_of d ''content'' of Some c \<Rightarrow> [py_str c] | None \<Rightarrow> []))"
    by (auto simp: Let_def split: option.splits)
  have f: "normalize_to_text True
         (JArray [JObject [(''type'', JString ''reasoning''), (''text'', JString ''skip'')],
                  JObject [(''type'', JString ''text''), (''text'', JString ''keep'')]])
       = ''keep''"
    by code_simp
  from a b c d e f show ?thesis by blast
qed

theorem normalize_sequence_blocks_witness:
  "block_chunks True [JInt 7] = [''7'']
   \<and> block_chunks True [JObject [(''type'', JString ''Thinking''), (''text'', JString ''skip'')]] = []
   \<and> block_chunks True [JObject [(''type'', JString ''TEXT''), (''text'', JString ''keep'')]] = [''keep'']
   \<and> block_chunks False [JObject [(''type'', JString ''thought''), (''content'', JString ''kept'')]]
       = [''kept'']
   \<and> normalize_to_text True (JArray [JInt 7, JString ''a''])
       = py_strip (py_join ''\<newline>'' (filter (\<lambda>c. c \<noteq> []) (concat [[''7''], [''a'']])))"
proof -
  let ?d1 = "[(''type'', JString ''Thinking''), (''text'', JString ''skip'')]"
  let ?d2 = "[(''type'', JString ''TEXT''), (''text'', JString ''keep'')]"
  let ?d3 = "[(''type'', JString ''thought''), (''content'', JString ''kept'')]"
  have s7: "py_str (JInt 7) = ''7''" by code_simp
  from normalize_sequence_blocks [of True "[]" "JInt 7" "[]"] s7
  have r0: "block_chunks True [JInt 7] = [''7'']" by simp
  have t1: "py_lower (py_str (dict_get ?d1 ''type'' (JString []))) = ''thinking''"
    by code_simp
  from normalize_sequence_blocks [of True "[]" JNull ?d1] t1
  have r1: "block_chunks True [JObject ?d1] = []" by simp
  have t2: "py_lower (py_str (dict_get ?d2 ''type'' (JString []))) = ''text''"
    by code_simp
  have v2: "dict_get ?d2 ''text'' (JString []) = JString ''keep''"
    by code_simp
  have tr: "truthy (JString ''keep'')" and sk: "py_str (JString ''keep'') = ''keep''"
    by (simp_all add: truthy_def py_str_def)
  from normalize_sequence_blocks [of True "[]" JNull ?d2] t2
  have "block_chunks True [JObject ?d2]
          = (if truthy (dict_get ?d2 ''text'' (JString []))
             then [py_str (dict_get ?d2 ''text'' (JString []))] else [])"
    by blast
  with v2 tr sk have r2: "block_chunks True [JObject ?d2] = [''keep'']" by simp
  have t3: "py_lower (py_str (dict_get ?d3 ''type'' (JString []))) = ''thought''"
    by code_simp
  have m3: "map_of ?d3 ''text'' = None" "map_of ?d3 ''content'' = Some (JString ''kept'')"
    by simp_all
  from normalize_sequence_blocks [of False "[]" JNull ?d3] t3
  have "block_chunks False [JObject ?d3]
             = (case map_of ?d3 ''text'' of
                  Some t \<Rightarrow> [py_str t]
                | None \<Rightarrow> (case map_of ?d3 ''content'' of Some c \<Rightarrow> [py_str c] | None \<Rightarrow> []))"
    by simp
  then have r3: "block_chunks False [JObject ?d3] = [''kept'']"
    by (simp only: m3 option.case py_str_def json.case)
  from normalize_sequence_blocks [of True "[JInt 7, JString ''a'']" "JString ''a''" "[]"] r0
  have r4: "normalize_to_text True (JArray [JInt 7, JString ''a''])
       = py_strip (py_join ''\<newline>'' (filter (\<lambda>c. c \<noteq> []) (concat [[''7''], [''a'']])))"
    by (simp add: py_str_def)
  from r0 r1 r2 r3 r4 show ?thesis by blast
qed

text \<open>
  C6 as stated fails: a mapping of type \<open>text\<close> that has a \<open>content\<close> field and no
  \<open>text\<close> field contributes nothing, where a mapping of another type contributes its
  content.
\<close>

theorem normalize_sequence_text_block_without_text:
  "normalize_to_text True
     (JArray [JObject [(''type'', JString ''text''), (''content'', JString ''hello'')]]) = []
   \<and> normalize_to_text True
     (JArray [JObject [(''type'', JString ''note''), (''content'', JString ''hello'')]]) = ''hello''"
  by code_simp

section \<open>Facts: stripping think blocks\<close>

subsection \<open>Stripping white space twice\<close>




subsection \<open>Runs of newlines\<close>









subsection \<open>Texts in which no pattern can start\<close>














section \<open>Facts: the report skeleton\<close>

lemma py_in_prefix: "prefix sub s \<Longrightarrow> py_in sub s"
  by (cases s) auto

lemma py_in_append_right: "py_in sub b \<Longrightarrow> py_in sub (a @ b)"
  by (induction a) auto

lemma py_in_middle: "py_in sub (a @ sub @ b)"
  by (rule py_in_append_right) (rule py_in_prefix, simp)

lemma py_in_nest: "py_in sub b \<Longrightarrow> py_in sub (a @ h @ b)"
  by (metis append_assoc py_in_append_right)

lemma skeleton_split:
  "skeleton text d =
     (''# Daily Report - '' @ d @ ''\<newline>\<newline>'') @ ''## What I Did Today'' @
     (''\<newline>- N/A\<newline>\<newline>'' @ ''## Problems / Blockers'' @
     (''\<newline>- N/A\<newline>\<newline>'' @ ''## Root Cause'' @
     (''\<newline>- N/A\<newline>\<newline>'' @ ''## Attempts & Fixes'' @
     (''\<newline>- N/A\<newline>\<newline>'' @ ''## Key Learnings'' @
     (''\<newline>- N/A\<newline>\<newline>'' @ ''## Metrics'' @
     (''\<newline>- N/A\<newline>\<newline>'' @ ''## Next Steps (Tomorrow)'' @
     (''\<newline>- [ ] N/A\<newline>\<newline>---\<newline>\<newline>### Raw Model Output\<newline>'' @ text @ ''\<newline>'')))))))"
  by (simp add: skeleton_def)

lemma skeleton_required: "list_all (\<lambda>sec. py_in sec (skeleton text d)) required"
  unfolding skeleton_split required_def list.pred_inject
  by (intro conjI py_in_middle py_in_nest) simp_all

text \<open>
  C9: \<open>ensure_minimum_sections\<close> is idempotent, and all seven required section headers
  occur in its result: a text that has them all is returned as it is, and the skeleton
  built otherwise has them all itself.
\<close>

theorem ensure_minimum_sections_idempotent:
  "ensure_minimum_sections (ensure_minimum_sections text d) d = ensure_minimum_sections text d
   \<and> (\<forall>sec \<in> set required. py_in sec (ensure_minimum_sections text d))
   \<and> (list_all (\<lambda>sec. py_in sec text) required \<longrightarrow> ensure_minimum_sections text d = text)"
proof -
  have all: "list_all (\<lambda>sec. py_in sec (ensure_minimum_sections text d)) required"
    by (simp add: ensure_minimum_sections_def skeleton_required)
  have "ensure_minimum_sections (ensure_minimum_sections text d) d = ensure_minimum_sections text d"
    using all by (simp add: ensure_minimum_sections_def [of "ensure_minimum_sections text d"])
  moreover have "\<forall>sec \<in> set required. py_in sec (ensure_minimum_sections text d)"
    using all by (simp add: list_all_iff)
  moreover have "list_all (\<lambda>sec. py_in sec text) required \<longrightarrow> ensure_minimum_sections text d = text"
    by (simp add: ensure_minimum_sections_def)
  ultimately show ?thesis by blast
qed

theorem ensure_minimum_sections_idempotent_witness:
  "ensure_minimum_sections
     (''# Daily Report\<newline>'' @ ''## What I Did Today'' @
     (''\<newline>- x\<newline>'' @ ''## Problems / Blockers'' @
     (''\<newline>- x\<newline>'' @ ''## Root Cause'' @
     (''\<newline>- x\<newline>'' @ ''## Attempts & Fixes'' @
     (''\<newline>- x\<newline>'' @ ''## Key Learnings'' @
     (''\<newline>- x\<newline>'' @ ''## Metrics'' @
     (''\<newline>- x\<newline>'' @ ''## Next Steps (Tomorrow)'' @ ''\<newline>- [ ] x''))))))) ''2026-02-17''
   = (''# Daily Report\<newline>'' @ ''## What I Did Today'' @
     (''\<newline>- x\<newline>'' @ ''## Problems / Blockers'' @
     (''\<newline>- x\<newline>'' @ ''## Root Cause'' @
     (''\<newline>- x\<newline>'' @ ''## Attempts & Fixes'' @
     (''\<newline>- x\<newline>'' @ ''## Key Learnings'' @
     (''\<newline>- x\<newline>'' @ ''## Metrics'' @
     (''\<newline>- x\<newline>'' @ ''## Next Steps (Tomorrow)'' @ ''\<newline>- [ ] x'')))))))
   \<and> ''## Metrics'' \<in> set required
   \<and> py_in ''## Metrics'' (ensure_minimum_sections ''plain text'' ''2026-02-17'')
   \<and> ensure_minimum_sections (ensure_minimum_sections ''plain text'' ''2026-02-17'') ''2026-02-17''
      = ensure_minimum_sections ''plain text'' ''2026-02-17''"
proof -
  let ?t = "(''# Daily Report\<newline>'' @ ''## What I Did Today'' @
     (''\<newline>- x\<newline>'' @ ''## Problems / Blockers'' @
     (''\<newline>- x\<newline>'' @ ''## Root Cause'' @
     (''\<newline>- x\<newline>'' @ ''## Attempts & Fixes'' @
     (''\<newline>- x\<newline>'' @ ''## Key Learnings'' @
     (''\<newline>- x\<newline>'' @ ''## Metrics'' @
     (''\<newline>- x\<newline>'' @ ''## Next Steps (Tomorrow)'' @ ''\<newline>- [ ] x'')))))))"
  have full: "list_all (\<lambda>sec. py_in sec ?t) required"
    unfolding required_def list.pred_inject
    by (intro conjI py_in_middle py_in_nest) simp_all
  have mem: "''## Metrics'' \<in> set required"
    by (simp add: required_def)
  from ensure_minimum_sections_idempotent [of ?t "''2026-02-17''"] full
  have "ensure_minimum_sections ?t ''2026-02-17'' = ?t" by blast
  moreover from ensure_minimum_sections_idempotent [of "''plain text''" "''2026-02-17''"] mem
  have "py_in ''## Metrics'' (ensure_minimum_sections ''plain text'' ''2026-02-17'')
    \<and> ensure_minimum_sections (ensure_minimum_sections ''plain text'' ''2026-02-17'') ''2026-02-17''
      = ensure_minimum_sections ''plain text'' ''2026-02-17''" by blast
  ultimately show ?thesis using mem by blast
qed

end
